theory Spec2Isabelle
  imports Main "HOL-Library.Char_ord" "HOL-Library.List_Lexorder"
begin

section \<open>The configuration document and Python's dynamic operations on it\<close>

text \<open>
  \<^verbatim>\<open>scripts/tools/topology.py\<close> works on the value that \<^verbatim>\<open>json.loads\<close> returns
  for \<^verbatim>\<open>config/topology.yml\<close>. That value is modelled as it is: a tree of
  \<^verbatim>\<open>None\<close>, booleans, integers, strings, lists and dicts. A string is a list of
  characters with code points below 256; a dict is the list of its items in insertion
  order, so the keys of a \<open>JObj\<close> are distinct, as they are in a Python dict.
  Floating-point numbers are left out of the document type.
\<close>

datatype json =
    JNull
  | JBool bool
  | JInt int
  | JStr string
  | JArr "json list"
  | JObj "(string \<times> json) list"

text \<open>
  Every exception the code can raise is a value. \<open>Unsupported\<close> marks what is not
  computed: a positional index of more than nine digits in a replacement field and a
  set with members that are not strings (both are errors in Python too; only which
  error is left open), and, in the sample runs below, the fields that no sample
  document has.
\<close>

datatype error =
    KeyError string
  | IndexError
  | ValueError string
  | TypeError
  | AttributeError
  | Unsupported

definition bnd :: "error + 'a \<Rightarrow> ('a \<Rightarrow> error + 'b) \<Rightarrow> error + 'b" where
  "bnd m f = (case m of Inl e \<Rightarrow> Inl e | Inr x \<Rightarrow> f x)"

text \<open>\<^verbatim>\<open>obj[key]\<close> with a string key: only a dict can be subscripted by a string.\<close>

fun getitem :: "json \<Rightarrow> string \<Rightarrow> error + json" where
  "getitem (JObj kvs) k = (case map_of kvs k of Some v \<Rightarrow> Inr v | None \<Rightarrow> Inl (KeyError k))"
| "getitem _ k = Inl TypeError"

text \<open>\<^verbatim>\<open>obj.get(key, default)\<close>: only a dict has the method.\<close>

fun dict_get :: "json \<Rightarrow> string \<Rightarrow> json \<Rightarrow> error + json" where
  "dict_get (JObj kvs) k d = Inr (case map_of kvs k of Some v \<Rightarrow> v | None \<Rightarrow> d)"
| "dict_get _ k d = Inl AttributeError"

text \<open>Truth value of a document value, as \<^verbatim>\<open>bool(x)\<close>, \<^verbatim>\<open>not x\<close> and \<^verbatim>\<open>x or y\<close> see it.\<close>

fun truthy :: "json \<Rightarrow> bool" where
  "truthy JNull = False"
| "truthy (JBool b) = b"
| "truthy (JInt n) = (n \<noteq> 0)"
| "truthy (JStr s) = (s \<noteq> [])"
| "truthy (JArr xs) = (xs \<noteq> [])"
| "truthy (JObj kvs) = (kvs \<noteq> [])"

text \<open>
  What a \<^verbatim>\<open>for\<close> loop or a comprehension iterates over: the elements of a list, the
  characters of a string, the keys of a dict; anything else is not iterable.
\<close>

fun iter :: "json \<Rightarrow> error + json list" where
  "iter (JArr xs) = Inr xs"
| "iter (JStr s) = Inr (map (\<lambda>c. JStr [c]) s)"
| "iter (JObj kvs) = Inr (map (\<lambda>kv. JStr (fst kv)) kvs)"
| "iter _ = Inl TypeError"

definition dquote :: char where
  "dquote = CHR 0x22"

definition squote :: char where
  "squote = CHR 0x27"

definition backslash :: char where
  "backslash = CHR 0x5C"

definition newline :: char where
  "newline = CHR 0x0A"

text \<open>\<^verbatim>\<open>sep.join(xs)\<close>.\<close>

fun join :: "string \<Rightarrow> string list \<Rightarrow> string" where
  "join sep [] = []"
| "join sep [x] = x"
| "join sep (x # y # ys) = x @ sep @ join sep (y # ys)"

text \<open>Decimal digits of a natural number, most significant first, and \<^verbatim>\<open>str\<close> of an integer.\<close>

fun digits :: "nat \<Rightarrow> string" where
  "digits n =
     (if n < 10 then [char_of (48 + n)]
      else digits (n div 10) @ [char_of (48 + n mod 10)])"

declare digits.simps [simp del]

definition int_str :: "int \<Rightarrow> string" where
  "int_str n = (if n < 0 then CHR ''-'' # digits (nat (- n)) else digits (nat n))"

text \<open>
  \<^verbatim>\<open>repr\<close> of a string. The string is put between single quotes, or between double
  quotes when it has a single quote and no double quote. The quote in use and the
  backslash get a backslash; tab, newline and carriage return are written
  \<^verbatim>\<open>\t\<close>, \<^verbatim>\<open>\n\<close>, \<^verbatim>\<open>\r\<close>; every other character that is not printable is written
  \<^verbatim>\<open>\xhh\<close>. Below 256 the characters that are not printable are the control characters
  (0 to 31 and 127 to 159), the no-break space (160) and the soft hyphen (173).
\<close>

definition hex_digit :: "nat \<Rightarrow> char" where
  "hex_digit k = (if k < 10 then char_of (48 + k) else char_of (87 + k))"

definition hex_escape :: "nat \<Rightarrow> string" where
  "hex_escape n = [backslash, CHR ''x'', hex_digit (n div 16), hex_digit (n mod 16)]"

definition repr_char :: "char \<Rightarrow> char \<Rightarrow> string" where
  "repr_char quote c =
     (let n = (of_char c :: nat) in
      if c = quote \<or> c = backslash then [backslash, c]
      else if n = 9 then [backslash, CHR ''t'']
      else if n = 10 then [backslash, CHR ''n'']
      else if n = 13 then [backslash, CHR ''r'']
      else if n < 32 \<or> n = 127 then hex_escape n
      else if n < 127 then [c]
      else if n \<le> 160 \<or> n = 173 then hex_escape n
      else [c])"

definition repr_str :: "string \<Rightarrow> string" where
  "repr_str s =
     (let quote = (if squote \<in> set s \<and> dquote \<notin> set s then dquote else squote)
      in [quote] @ concat (map (repr_char quote) s) @ [quote])"

text \<open>
  \<^verbatim>\<open>repr\<close> of a document value: a list as \<^verbatim>\<open>[a, b]\<close>, a dict as
  \<^verbatim>\<open>{'k': a, 'l': b}\<close>, each member by its own \<^verbatim>\<open>repr\<close>.
\<close>

fun py_repr :: "json \<Rightarrow> string"
  and repr_elems :: "json list \<Rightarrow> string list"
  and repr_items :: "(string \<times> json) list \<Rightarrow> string list" where
  "py_repr JNull = ''None''"
| "py_repr (JBool b) = (if b then ''True'' else ''False'')"
| "py_repr (JInt n) = int_str n"
| "py_repr (JStr s) = repr_str s"
| "py_repr (JArr xs) = ''['' @ join '', '' (repr_elems xs) @ '']''"
| "py_repr (JObj kvs) = ''{'' @ join '', '' (repr_items kvs) @ ''}''"
| "repr_elems [] = []"
| "repr_elems (x # xs) = py_repr x # repr_elems xs"
| "repr_items [] = []"
| "repr_items (kv # kvs) = (repr_str (fst kv) @ '': '' @ py_repr (snd kv)) # repr_items kvs"

text \<open>
  \<^verbatim>\<open>str(x)\<close>, which is also what a replacement field without accessor, conversion and
  format specification, and an f-string, write for \<open>x\<close>: a string as it is, anything
  else by its \<^verbatim>\<open>repr\<close>.
\<close>

fun str_of :: "json \<Rightarrow> string" where
  "str_of (JStr s) = s"
| "str_of v = py_repr v"

section \<open>\<^verbatim>\<open>format_tokens\<close>: \<^verbatim>\<open>template.format(**kw)\<close>\<close>

text \<open>
  The keyword arguments are an association list from placeholder names to values.

  What \<^verbatim>\<open>str.format\<close> writes for a replacement field that has attribute or index
  access, a conversion or a format specification is decided by Python's object model
  and format mini-language, which are no part of this repository; for an attribute that
  is a method the text even holds the address of the object, which changes from run to
  run. The model takes this as a parameter \<open>rt\<close> for one run of the interpreter:
  \<open>rt kw field\<close> is the text, or the error, that this run yields for the field with the
  text \<open>field\<close> between its braces, once the name at its head has been found among the
  keywords \<open>kw\<close>. Two values that are equal are not told apart, although they may lie
  at different addresses.
\<close>

type_synonym field_runtime = "(string \<times> json) list \<Rightarrow> string \<Rightarrow> error + string"

text \<open>
  A replacement field is resolved by \<open>lookup_field\<close>, from the field name \<open>name\<close> (the
  text before any conversion or format specification) and the whole text \<open>field\<close>. The
  part of the name before the first dot or bracket is looked up first. An empty or
  all-digit first part is a positional index, and \<^verbatim>\<open>format_tokens\<close> passes no
  positional argument, so the lookup raises \<^verbatim>\<open>IndexError\<close> (beyond nine digits the
  outcome depends on the platform's word size and is not computed). A first part that
  is no keyword raises \<^verbatim>\<open>KeyError\<close> carrying it. A plain field writes \<^verbatim>\<open>str\<close> of the
  value; for any other field the run decides.
\<close>

definition is_digit :: "char \<Rightarrow> bool" where
  "is_digit c = (CHR ''0'' \<le> c \<and> c \<le> CHR ''9'')"

definition lookup_field ::
  "field_runtime \<Rightarrow> (string \<times> json) list \<Rightarrow> string \<Rightarrow> string \<Rightarrow> error + string" where
  "lookup_field rt kw name field =
     (let first = takeWhile (\<lambda>c. c \<noteq> CHR ''.'' \<and> c \<noteq> CHR ''['') name in
      if list_all is_digit first then
        (if length first \<le> 9 then Inl IndexError else Inl Unsupported)
      else
        (case map_of kw first of
           None \<Rightarrow> Inl (KeyError first)
         | Some v \<Rightarrow> if field = first then Inr (str_of v) else rt kw field))"

text \<open>
  The template is read left to right, as CPython's formatter reads it. \<open>fmt\<close> copies
  literal text, with \<^verbatim>\<open>{{\<close> and \<^verbatim>\<open>}}\<close> standing for one brace. \<open>fld\<close> reads a field
  name up to the closing brace, a colon or an exclamation mark; \<open>brk\<close> skips what is
  between square brackets; \<open>conv\<close> reads the conversion character after an exclamation
  mark; \<open>spec\<close> reads a format specification up to the brace that closes the field,
  counting the braces nested in it. The field is parsed to its end before its name is
  looked up, and it is resolved before the text after it is read, so the first problem
  from the left decides the error.
\<close>

fun fmt :: "field_runtime \<Rightarrow> (string \<times> json) list \<Rightarrow> string \<Rightarrow> error + string"
  and fld :: "field_runtime \<Rightarrow> (string \<times> json) list \<Rightarrow> string \<Rightarrow> string \<Rightarrow> error + string"
  and brk :: "field_runtime \<Rightarrow> (string \<times> json) list \<Rightarrow> string \<Rightarrow> string \<Rightarrow> error + string"
  and conv ::
    "field_runtime \<Rightarrow> (string \<times> json) list \<Rightarrow> string \<Rightarrow> string \<Rightarrow> string \<Rightarrow> error + string"
  and spec ::
    "field_runtime \<Rightarrow> (string \<times> json) list \<Rightarrow> string \<Rightarrow> string \<Rightarrow> nat \<Rightarrow> string \<Rightarrow>
     error + string" where
  "fmt rt kw [] = Inr []"
| "fmt rt kw (c # cs) =
     (if c = CHR ''{'' then
        (case cs of
           [] \<Rightarrow> Inl (ValueError ''Single '{' encountered in format string'')
         | d # ds \<Rightarrow>
             if d = CHR ''{'' then bnd (fmt rt kw ds) (\<lambda>r. Inr (CHR ''{'' # r))
             else fld rt kw [] cs)
      else if c = CHR ''}'' then
        (case cs of
           [] \<Rightarrow> Inl (ValueError ''Single '}' encountered in format string'')
         | d # ds \<Rightarrow>
             if d = CHR ''}'' then bnd (fmt rt kw ds) (\<lambda>r. Inr (CHR ''}'' # r))
             else Inl (ValueError ''Single '}' encountered in format string''))
      else bnd (fmt rt kw cs) (\<lambda>r. Inr (c # r)))"
| "fld rt kw name [] = Inl (ValueError ''expected '}' before end of string'')"
| "fld rt kw name (c # cs) =
     (if c = CHR ''{'' then Inl (ValueError ''unexpected '{' in field name'')
      else if c = CHR ''['' then brk rt kw (name @ [c]) cs
      else if c = CHR ''}'' then
        bnd (lookup_field rt kw name name) (\<lambda>v. bnd (fmt rt kw cs) (\<lambda>r. Inr (v @ r)))
      else if c = CHR '':'' then spec rt kw name (name @ [c]) 1 cs
      else if c = CHR ''!'' then conv rt kw name (name @ [c]) cs
      else fld rt kw (name @ [c]) cs)"
| "brk rt kw name [] = Inl (ValueError ''expected '}' before end of string'')"
| "brk rt kw name (c # cs) =
     (if c = CHR '']'' then fld rt kw (name @ [c]) cs else brk rt kw (name @ [c]) cs)"
| "conv rt kw name field [] =
     Inl (ValueError ''end of string while looking for conversion specifier'')"
| "conv rt kw name field (c # cs) =
     (case cs of
        [] \<Rightarrow> Inl (ValueError ''unmatched '{' in format spec'')
      | d # ds \<Rightarrow>
          if d = CHR ''}'' then
            bnd (lookup_field rt kw name (field @ [c])) (\<lambda>v.
            bnd (fmt rt kw ds) (\<lambda>r. Inr (v @ r)))
          else if d = CHR '':'' then spec rt kw name (field @ [c, d]) 1 ds
          else Inl (ValueError ''expected ':' after conversion specifier''))"
| "spec rt kw name field n [] = Inl (ValueError ''unmatched '{' in format spec'')"
| "spec rt kw name field n (c # cs) =
     (if c = CHR ''{'' then spec rt kw name (field @ [c]) (Suc n) cs
      else if c = CHR ''}'' then
        (if n = 1 then
           bnd (lookup_field rt kw name field) (\<lambda>v. bnd (fmt rt kw cs) (\<lambda>r. Inr (v @ r)))
         else spec rt kw name (field @ [c]) (n - 1) cs)
      else spec rt kw name (field @ [c]) n cs)"

text \<open>
  \<^verbatim>\<open>format_tokens(template, **kw)\<close>. The template comes from the document, and only a
  string has a \<^verbatim>\<open>format\<close> method.
\<close>

fun format_tokens :: "field_runtime \<Rightarrow> json \<Rightarrow> (string \<times> json) list \<Rightarrow> error + string" where
  "format_tokens rt (JStr template) kw = fmt rt kw template"
| "format_tokens rt _ kw = Inl AttributeError"

section \<open>\<^verbatim>\<open>expand_role_users\<close>\<close>

text \<open>
  One principal is the dict that \<^verbatim>\<open>expand_role_users\<close> appends. Its keys are fixed
  per role, so it is a record; the positional keys \<^verbatim>\<open>zone\<close>, \<^verbatim>\<open>subzone\<close> and
  \<^verbatim>\<open>leafId\<close> are \<open>None\<close> where the dict does not have them.
\<close>

record principal =
  username :: string
  role :: string
  zone :: "json option"
  subzone :: "json option"
  leafId :: "json option"
  publish :: "string list"
  subscribe :: "string list"

text \<open>A list comprehension whose element expression may raise: it stops at the first error.\<close>

fun comprehension :: "('a \<Rightarrow> error + 'b) \<Rightarrow> 'a list \<Rightarrow> error + 'b list" where
  "comprehension f [] = Inr []"
| "comprehension f (x # xs) = bnd (f x) (\<lambda>y. bnd (comprehension f xs) (\<lambda>ys. Inr (y # ys)))"

text \<open>
  A \<^verbatim>\<open>for\<close> loop whose body appends to \<^verbatim>\<open>users\<close>: \<open>for_list\<close> runs the body on each
  element in order and collects what it appended; \<open>for_each\<close> first asks the value for
  its elements, which is where a loop over a non-iterable value raises.
\<close>

fun for_list :: "'a list \<Rightarrow> ('a \<Rightarrow> error + 'b list) \<Rightarrow> error + 'b list" where
  "for_list [] body = Inr []"
| "for_list (x # xs) body = bnd (body x) (\<lambda>a. bnd (for_list xs body) (\<lambda>b. Inr (a @ b)))"

definition for_each :: "json \<Rightarrow> (json \<Rightarrow> error + 'b list) \<Rightarrow> error + 'b list" where
  "for_each j body = bnd (iter j) (\<lambda>xs. for_list xs body)"

text \<open>
  \<^verbatim>\<open>format_tokens(roles[r]["userTemplate"], **kw)\<close> and
  \<^verbatim>\<open>[format_tokens(s, **kw) for s in roles[r][key]]\<close>, with the lookups in the order
  Python evaluates them.
\<close>

definition user_name ::
  "field_runtime \<Rightarrow> json \<Rightarrow> string \<Rightarrow> (string \<times> json) list \<Rightarrow> error + string" where
  "user_name rt roles r kw =
     bnd (getitem roles r) (\<lambda>rc.
     bnd (getitem rc ''userTemplate'') (\<lambda>t.
     format_tokens rt t kw))"

definition subjects ::
  "field_runtime \<Rightarrow> json \<Rightarrow> string \<Rightarrow> string \<Rightarrow> (string \<times> json) list \<Rightarrow>
   error + string list" where
  "subjects rt roles r key kw =
     bnd (getitem roles r) (\<lambda>rc.
     bnd (getitem rc key) (\<lambda>ps.
     bnd (iter ps) (\<lambda>ss.
     comprehension (\<lambda>s. format_tokens rt s kw) ss)))"

text \<open>
  The dict literal of one \<^verbatim>\<open>users.append\<close>: the user name is formatted with \<open>kwu\<close>,
  then the publish subjects and then the subscribe subjects with \<open>kws\<close>.
\<close>

definition mk_user ::
  "field_runtime \<Rightarrow> json \<Rightarrow> string \<Rightarrow> (string \<times> json) list \<Rightarrow> (string \<times> json) list \<Rightarrow>
   json option \<Rightarrow> json option \<Rightarrow> json option \<Rightarrow> error + principal list" where
  "mk_user rt roles r kwu kws z sz leaf =
     bnd (user_name rt roles r kwu) (\<lambda>n.
     bnd (subjects rt roles r ''publish'' kws) (\<lambda>p.
     bnd (subjects rt roles r ''subscribe'' kws) (\<lambda>s.
     Inr [\<lparr>username = n, role = r, zone = z, subzone = sz, leafId = leaf,
           publish = p, subscribe = s\<rparr>])))"

definition central_relay :: "field_runtime \<Rightarrow> json \<Rightarrow> json \<Rightarrow> json \<Rightarrow> error + principal list" where
  "central_relay rt roles central_id zone_central =
     mk_user rt roles ''relayCentral''
       [(''centralId'', central_id)]
       [(''centralId'', central_id), (''zoneForCentralAttachedLeaves'', zone_central)]
       None None None"

definition zone_relay :: "field_runtime \<Rightarrow> json \<Rightarrow> json \<Rightarrow> json \<Rightarrow> error + principal list" where
  "zone_relay rt roles central_id z =
     (let kw = [(''centralId'', central_id), (''zone'', z)] in
      mk_user rt roles ''relayZone'' kw kw (Some z) None None)"

definition subzone_relay :: "field_runtime \<Rightarrow> json \<Rightarrow> json \<Rightarrow> json \<Rightarrow> json \<Rightarrow> error + principal list" where
  "subzone_relay rt roles central_id z sz =
     (let kw = [(''centralId'', central_id), (''zone'', z), (''subzone'', sz)] in
      mk_user rt roles ''relaySubzone'' kw kw (Some z) (Some sz) None)"

definition central_leaf :: "field_runtime \<Rightarrow> json \<Rightarrow> json \<Rightarrow> json \<Rightarrow> json \<Rightarrow> error + principal list" where
  "central_leaf rt roles central_id zone_central leaf =
     (let kw = [(''centralId'', central_id), (''zoneForCentralAttachedLeaves'', zone_central),
                (''leafId'', leaf)] in
      mk_user rt roles ''leafCentral'' kw kw (Some zone_central) None (Some leaf))"

definition zone_leaf :: "field_runtime \<Rightarrow> json \<Rightarrow> json \<Rightarrow> json \<Rightarrow> json \<Rightarrow> error + principal list" where
  "zone_leaf rt roles central_id z leaf =
     (let kw = [(''centralId'', central_id), (''zone'', z), (''leafId'', leaf)] in
      mk_user rt roles ''leafZone'' kw kw (Some z) None (Some leaf))"

definition subzone_leaf ::
  "field_runtime \<Rightarrow> json \<Rightarrow> json \<Rightarrow> json \<Rightarrow> json \<Rightarrow> json \<Rightarrow> error + principal list" where
  "subzone_leaf rt roles central_id z sz leaf =
     (let kw = [(''centralId'', central_id), (''zone'', z), (''subzone'', sz),
                (''leafId'', leaf)] in
      mk_user rt roles ''leafSubzone'' kw kw (Some z) (Some sz) (Some leaf))"

text \<open>
  The six loops of \<^verbatim>\<open>expand_role_users\<close>, in the order of the source, after the
  lookups at its head. \<open>expand_loops\<close> is the part from \<^verbatim>\<open>users = []\<close> to
  \<^verbatim>\<open>return users\<close>.
\<close>

definition expand_loops ::
  "field_runtime \<Rightarrow> json \<Rightarrow> json \<Rightarrow> json \<Rightarrow> json \<Rightarrow> json \<Rightarrow> json \<Rightarrow> error + principal list" where
  "expand_loops rt roles central_id zone_central zones subzones leaves =
     bnd (central_relay rt roles central_id zone_central) (\<lambda>u0.
     bnd (for_each zones (\<lambda>z. zone_relay rt roles central_id z)) (\<lambda>u1.
     bnd (for_each zones (\<lambda>z.
            for_each subzones (\<lambda>sz. subzone_relay rt roles central_id z sz))) (\<lambda>u2.
     bnd (for_each leaves (\<lambda>leaf. central_leaf rt roles central_id zone_central leaf)) (\<lambda>u3.
     bnd (for_each zones (\<lambda>z.
            for_each leaves (\<lambda>leaf. zone_leaf rt roles central_id z leaf))) (\<lambda>u4.
     bnd (for_each zones (\<lambda>z.
            for_each subzones (\<lambda>sz.
              for_each leaves (\<lambda>leaf. subzone_leaf rt roles central_id z sz leaf)))) (\<lambda>u5.
     Inr (u0 @ u1 @ u2 @ u3 @ u4 @ u5)))))))"

definition expand_role_users :: "field_runtime \<Rightarrow> json \<Rightarrow> error + principal list" where
  "expand_role_users rt cfg =
     bnd (getitem cfg ''topology'') (\<lambda>t.
     bnd (getitem t ''zones'') (\<lambda>zones.
     bnd (getitem t ''subzonesPerZone'') (\<lambda>subzones.
     bnd (getitem t ''leavesPerAttachment'') (\<lambda>leaves.
     bnd (getitem t ''centralId'') (\<lambda>central_id.
     bnd (getitem t ''defaults'') (\<lambda>d.
     bnd (getitem d ''zoneForCentralAttachedLeaves'') (\<lambda>zone_central.
     bnd (getitem cfg ''roles'') (\<lambda>roles.
     expand_loops rt roles central_id zone_central zones subzones leaves))))))))"

text \<open>
  Where a principal sits: its role and the positional keys of its dict.
\<close>

definition position :: "principal \<Rightarrow> string \<times> json option \<times> json option \<times> json option" where
  "position u = (role u, zone u, subzone u, leafId u)"

section \<open>\<^verbatim>\<open>build_nats_authz\<close>\<close>

text \<open>
  An entry of the local list \<^verbatim>\<open>users\<close> of \<^verbatim>\<open>build_nats_authz\<close>: user, password and,
  in enforced mode, the two allow-lists of the \<^verbatim>\<open>permissions\<close> dict (publish first).
  The administrator's fields come straight from the document, so they are document
  values.
\<close>

record entry =
  user :: json
  password :: json
  permissions :: "(json \<times> json) option"

text \<open>
  \<^verbatim>\<open>sorted(set(xs + js))\<close> for the role's subjects \<open>xs\<close> and the document value \<open>js\<close>.

  The order in which Python iterates over a set of strings depends on the interpreter's
  hash seed, which is no part of the document. The model takes that order as the
  parameter \<open>si\<close>: \<open>si ys\<close> is the list that iterating over \<^verbatim>\<open>set(ys)\<close> yields, and
  \<open>valid_set_iter\<close> says what every such order satisfies: each element of \<open>ys\<close> once.

  Only a list can be added to a list, and a list or a dict cannot be a member of a set.
  A set with members that are not strings is not computed (no such run produces a
  configuration: \<^verbatim>\<open>q\<close> raises on a member that is no string).
\<close>

definition valid_set_iter :: "(string list \<Rightarrow> string list) \<Rightarrow> bool" where
  "valid_set_iter si = (\<forall>ys. distinct (si ys) \<and> set (si ys) = set ys)"

fun hashable :: "json \<Rightarrow> bool" where
  "hashable (JArr xs) = False"
| "hashable (JObj kvs) = False"
| "hashable _ = True"

fun str_items :: "json list \<Rightarrow> string list option" where
  "str_items [] = Some []"
| "str_items (JStr s # js) = map_option (\<lambda>ss. s # ss) (str_items js)"
| "str_items (_ # js) = None"

definition allow_list ::
  "(string list \<Rightarrow> string list) \<Rightarrow> string list \<Rightarrow> json \<Rightarrow> error + json" where
  "allow_list si xs js =
     (case js of
        JArr ys \<Rightarrow>
          if \<not> list_all hashable ys then Inl TypeError
          else (case str_items ys of
                  None \<Rightarrow> Inl Unsupported
                | Some ss \<Rightarrow> Inr (JArr (map JStr (sort (si (xs @ ss))))))
      | _ \<Rightarrow> Inl TypeError)"

definition admin_error :: error where
  "admin_error = ValueError ''auth.admin.username/password must be set in topology.yml''"

text \<open>The entries appended in the enforced branch (source lines 168 to 186).\<close>

definition admin_entry_enforced :: "json \<Rightarrow> error + entry" where
  "admin_entry_enforced admin =
     bnd (getitem admin ''username'') (\<lambda>u.
     bnd (getitem admin ''password'') (\<lambda>p.
     bnd (dict_get admin ''publishAllow'' (JArr [JStr ''>''])) (\<lambda>pa.
     bnd (dict_get admin ''subscribeAllow'' (JArr [JStr ''>''])) (\<lambda>sa.
     Inr \<lparr>user = u, password = p, permissions = Some (pa, sa)\<rparr>))))"

definition role_entry_enforced ::
  "(string list \<Rightarrow> string list) \<Rightarrow> json \<Rightarrow> json \<Rightarrow> json \<Rightarrow> principal \<Rightarrow> error + entry" where
  "role_entry_enforced si pwd_prefix js_pub js_sub u =
     bnd (allow_list si (publish u) js_pub) (\<lambda>pa.
     bnd (allow_list si (subscribe u) js_sub) (\<lambda>sa.
     Inr \<lparr>user = JStr (username u), password = JStr (str_of pwd_prefix @ username u),
          permissions = Some (pa, sa)\<rparr>))"

text \<open>The entries appended in the authentication-only branch (source lines 190 to 199).\<close>

definition admin_entry_plain :: "json \<Rightarrow> error + entry" where
  "admin_entry_plain admin =
     bnd (getitem admin ''username'') (\<lambda>u.
     bnd (getitem admin ''password'') (\<lambda>p.
     Inr \<lparr>user = u, password = p, permissions = None\<rparr>))"

definition role_entry_plain :: "json \<Rightarrow> principal \<Rightarrow> error + entry" where
  "role_entry_plain pwd_prefix u =
     Inr \<lparr>user = JStr (username u), password = JStr (str_of pwd_prefix @ username u),
          permissions = None\<rparr>"

text \<open>
  The first half of \<^verbatim>\<open>build_nats_authz\<close> (source lines 153 to 199): the settings, the
  check of the administrator's credentials, and the list \<^verbatim>\<open>users\<close>, returned together
  with the flag \<^verbatim>\<open>enforce\<close> that the second half reads.
\<close>

definition authz_users ::
  "field_runtime \<Rightarrow> (string list \<Rightarrow> string list) \<Rightarrow> json \<Rightarrow> error + (bool \<times> entry list)" where
  "authz_users rt si cfg =
     bnd (dict_get cfg ''auth'' (JObj [])) (\<lambda>auth_cfg.
     bnd (dict_get auth_cfg ''enforcePermissions'' (JBool True)) (\<lambda>ep.
     bnd (dict_get auth_cfg ''passwordPrefix'' (JStr ''pwd_'')) (\<lambda>pwd_prefix.
     bnd (dict_get auth_cfg ''admin'' JNull) (\<lambda>a.
     let admin = (if truthy a then a else JObj []) in
     bnd (dict_get admin ''username'' JNull) (\<lambda>au.
     if \<not> truthy au then Inl admin_error else
     bnd (dict_get admin ''password'' JNull) (\<lambda>ap.
     if \<not> truthy ap then Inl admin_error else
     if truthy ep then
       bnd (dict_get auth_cfg ''jsClientInternal'' (JObj [])) (\<lambda>ji.
       bnd (dict_get ji ''publishAllow'' (JArr [])) (\<lambda>js_pub.
       bnd (dict_get auth_cfg ''jsClientInternal'' (JObj [])) (\<lambda>ji'.
       bnd (dict_get ji' ''subscribeAllow'' (JArr [])) (\<lambda>js_sub.
       bnd (admin_entry_enforced admin) (\<lambda>a0.
       bnd (expand_role_users rt cfg) (\<lambda>us.
       bnd (comprehension (role_entry_enforced si pwd_prefix js_pub js_sub) us) (\<lambda>es.
       Inr (True, a0 # es))))))))
     else
       bnd (admin_entry_plain admin) (\<lambda>a0.
       bnd (expand_role_users rt cfg) (\<lambda>us.
       bnd (comprehension (role_entry_plain pwd_prefix) us) (\<lambda>es.
       Inr (False, a0 # es))))))))))"

text \<open>
  \<^verbatim>\<open>q\<close>: the value between double quotes, each double quote of the value replaced by
  a backslash and a double quote. Only a string has \<^verbatim>\<open>replace\<close>.
\<close>

fun replace_quote :: "string \<Rightarrow> string" where
  "replace_quote [] = []"
| "replace_quote (c # cs) =
     (if c = dquote then backslash # dquote # replace_quote cs else c # replace_quote cs)"

definition q_str :: "string \<Rightarrow> string" where
  "q_str val = [dquote] @ replace_quote val @ [dquote]"

fun q :: "json \<Rightarrow> error + string" where
  "q (JStr val) = Inr (q_str val)"
| "q _ = Inl AttributeError"

text \<open>The second half (source lines 204 to 228): the lines of \<^verbatim>\<open>out\<close>.\<close>

definition allow_line :: "json \<Rightarrow> error + string" where
  "allow_line a =
     bnd (iter a) (\<lambda>items.
     bnd (comprehension q items) (\<lambda>qs.
     Inr (''          allow = ['' @ join '', '' qs @ '']'')))"

definition permission_lines :: "entry \<Rightarrow> error + string list" where
  "permission_lines e =
     (case permissions e of
        None \<Rightarrow> Inl (KeyError ''permissions'')
      | Some (pa, sa) \<Rightarrow>
          bnd (allow_line pa) (\<lambda>pl.
          bnd (allow_line sa) (\<lambda>sl.
          Inr [''      permissions = {'',
               ''        publish = {'',
               pl,
               ''        }'',
               ''        subscribe = {'',
               sl,
               ''        }'',
               ''      }''])))"

definition entry_lines :: "bool \<Rightarrow> bool \<Rightarrow> entry \<Rightarrow> error + string list" where
  "entry_lines enforce is_last e =
     bnd (q (user e)) (\<lambda>u.
     bnd (q (password e)) (\<lambda>p.
     bnd (if enforce then permission_lines e else Inr []) (\<lambda>pl.
     Inr ([''    {'', ''      user = '' @ u, ''      password = '' @ p] @ pl @
          [''    }'' @ (if is_last then [] else '','')]))))"

text \<open>
  The loop over \<^verbatim>\<open>enumerate(users)\<close>: the entry at index \<open>idx\<close> is followed by a comma
  when \<^verbatim>\<open>idx < len(users) - 1\<close>, that is, when it is not the last one.
\<close>

fun users_lines :: "bool \<Rightarrow> entry list \<Rightarrow> error + string list" where
  "users_lines enforce [] = Inr []"
| "users_lines enforce (e # es) =
     bnd (entry_lines enforce (es = []) e) (\<lambda>l.
     bnd (users_lines enforce es) (\<lambda>r.
     Inr (l @ r)))"

definition out_lines :: "bool \<Rightarrow> entry list \<Rightarrow> error + string list" where
  "out_lines enforce users =
     bnd (users_lines enforce users) (\<lambda>body.
     Inr ([''authorization {'', ''  users = [''] @ body @ [''  ]'', ''}'']))"

definition render :: "bool \<Rightarrow> entry list \<Rightarrow> error + string" where
  "render enforce users =
     bnd (out_lines enforce users) (\<lambda>out.
     Inr (join [newline] out @ [newline]))"

definition build_nats_authz ::
  "field_runtime \<Rightarrow> (string list \<Rightarrow> string list) \<Rightarrow> json \<Rightarrow> error + string" where
  "build_nats_authz rt si cfg =
     bnd (authz_users rt si cfg) (\<lambda>eu. render (fst eu) (snd eu))"

section \<open>Patterns, documents and output as the specification describes them\<close>











text \<open>
  A pattern whose replacement fields are all plain: a name between braces, without
  accessor, conversion or format specification. \<open>plain_template\<close> reads the pattern as
  \<open>fmt\<close> does, and \<open>plain_field\<close> the inside of a field. \<open>plain_json\<close> says this
  of every string in a document value, the keys of its dicts included, and
  \<open>plain_roles\<close> of what the document has under \<^verbatim>\<open>roles\<close>.
\<close>

fun plain_template :: "string \<Rightarrow> bool"
  and plain_field :: "string \<Rightarrow> bool" where
  "plain_template [] = True"
| "plain_template (c # cs) =
     (if c = CHR ''{'' then
        (case cs of
           [] \<Rightarrow> True
         | d # ds \<Rightarrow> if d = CHR ''{'' then plain_template ds else plain_field cs)
      else if c = CHR ''}'' then
        (case cs of
           [] \<Rightarrow> True
         | d # ds \<Rightarrow> if d = CHR ''}'' then plain_template ds else True)
      else plain_template cs)"
| "plain_field [] = True"
| "plain_field (c # cs) =
     (if c = CHR ''}'' then plain_template cs
      else c \<notin> set ''.[:!'' \<and> plain_field cs)"

fun plain_json :: "json \<Rightarrow> bool"
  and plain_elems :: "json list \<Rightarrow> bool"
  and plain_items :: "(string \<times> json) list \<Rightarrow> bool" where
  "plain_json (JStr s) = plain_template s"
| "plain_json (JArr xs) = plain_elems xs"
| "plain_json (JObj kvs) = plain_items kvs"
| "plain_json JNull = True"
| "plain_json (JBool b) = True"
| "plain_json (JInt n) = True"
| "plain_elems [] = True"
| "plain_elems (x # xs) = (plain_json x \<and> plain_elems xs)"
| "plain_items [] = True"
| "plain_items (kv # kvs) = (plain_template (fst kv) \<and> plain_json (snd kv) \<and> plain_items kvs)"

definition plain_roles :: "json \<Rightarrow> bool" where
  "plain_roles cfg = (case getitem cfg ''roles'' of Inl e \<Rightarrow> True | Inr roles \<Rightarrow> plain_json roles)"

text \<open>
  Modelled from the spec: the string-literal rule of the target configuration grammar,
  whose parser is not part of this repository. The specification says that a value is
  written between double quotes with each embedded double quote backslash-escaped. So a
  literal opens with a double quote and closes at the first double quote that no
  backslash escapes, where it must end; a backslash followed by a double quote or by a
  backslash stands for that character. Any other escape sequence is not read.
\<close>

fun literal_body :: "string \<Rightarrow> string option" where
  "literal_body [] = None"
| "literal_body (c # cs) =
     (if c = dquote then (if cs = [] then Some [] else None)
      else if c = backslash then
        (case cs of
           [] \<Rightarrow> None
         | d # ds \<Rightarrow>
             if d = dquote \<or> d = backslash then map_option (\<lambda>r. d # r) (literal_body ds)
             else None)
      else map_option (\<lambda>r. c # r) (literal_body cs))"

text \<open>
  Modelled from the spec: a whole string literal of the target grammar, read back to the
  value it stands for (\<open>None\<close> when the text is no literal).
\<close>

definition parse_literal :: "string \<Rightarrow> string option" where
  "parse_literal s =
     (case s of [] \<Rightarrow> None | c # cs \<Rightarrow> if c = dquote then literal_body cs else None)"

text \<open>
  The \<^verbatim>\<open>permissions\<close> block of the output grammar for a publish allow-list \<open>ps\<close> and
  a subscribe allow-list \<open>ss\<close>, as the lines the renderer writes for it.
\<close>

definition rendered_permissions :: "string list \<Rightarrow> string list \<Rightarrow> string list" where
  "rendered_permissions ps ss =
     [''      permissions = {'',
      ''        publish = {'',
      ''          allow = ['' @ join '', '' (map q_str ps) @ '']'',
      ''        }'',
      ''        subscribe = {'',
      ''          allow = ['' @ join '', '' (map q_str ss) @ '']'',
      ''        }'',
      ''      }'']"

text \<open>
  The block of lines of one entry in the output grammar: user \<open>n\<close>, password \<open>p\<close>,
  the lines \<open>perms\<close> of its permissions (none without enforcement), and the closing
  brace, followed by a comma unless the entry is the last. \<open>role_blocks\<close> puts the
  blocks of a list of principals one after the other, the last one without comma.
\<close>

definition role_block :: "string \<Rightarrow> string \<Rightarrow> string list \<Rightarrow> bool \<Rightarrow> string list" where
  "role_block n p perms is_last =
     [''    {'', ''      user = '' @ q_str n, ''      password = '' @ q_str p] @ perms @
     [''    }'' @ (if is_last then [] else '','')]"

fun role_blocks :: "(principal \<Rightarrow> bool \<Rightarrow> string list) \<Rightarrow> principal list \<Rightarrow> string list" where
  "role_blocks f [] = []"
| "role_blocks f (u # us) = f u (us = []) @ role_blocks f us"

section \<open>A sample document\<close>

text \<open>
  The topology of the specification's scenario (central site \<^verbatim>\<open>C1\<close>, zones \<^verbatim>\<open>z1\<close> and
  \<^verbatim>\<open>z2\<close>, one subzone, one leaf) with a role for each of the six categories. The
  \<^verbatim>\<open>auth\<close> block is a parameter. The theorems below are instantiated on it.
\<close>

definition sample_topology :: json where
  "sample_topology = JObj
     [(''centralId'', JStr ''C1''),
      (''zones'', JArr [JStr ''z1'', JStr ''z2'']),
      (''subzonesPerZone'', JArr [JStr ''sz1'']),
      (''leavesPerAttachment'', JArr [JStr ''leaf1'']),
      (''defaults'', JObj [(''zoneForCentralAttachedLeaves'', JStr ''z0'')])]"

definition sample_role :: "string \<Rightarrow> string list \<Rightarrow> string list \<Rightarrow> json" where
  "sample_role t ps ss = JObj
     [(''userTemplate'', JStr t),
      (''publish'', JArr (map JStr ps)),
      (''subscribe'', JArr (map JStr ss))]"

definition sample_roles :: json where
  "sample_roles = JObj
     [(''relayCentral'', sample_role ''r.{centralId}'' [''up.>'', ''a'', ''up.>''] [''dn.>'']),
      (''relayZone'', sample_role ''r.{zone}'' [''up.{zone}''] []),
      (''relaySubzone'', sample_role ''r.{zone}.{subzone}'' [] [''dn.{subzone}'']),
      (''leafCentral'', sample_role ''l.{leafId}'' [''e.{leafId}''] []),
      (''leafZone'', sample_role ''leaf.{zone}.{leafId}'' [] []),
      (''leafSubzone'', sample_role ''l.{zone}.{subzone}.{leafId}'' [] [])]"

definition sample_cfg :: "json \<Rightarrow> json" where
  "sample_cfg auth = JObj
     [(''topology'', sample_topology), (''roles'', sample_roles), (''auth'', auth)]"

definition sample_admin :: json where
  "sample_admin = JObj [(''username'', JStr ''admin''), (''password'', JStr ''s3'')]"

definition sample_auth :: "bool \<Rightarrow> json" where
  "sample_auth enforce = JObj
     [(''enforcePermissions'', JBool enforce),
      (''passwordPrefix'', JStr ''pw_''),
      (''admin'', sample_admin),
      (''jsClientInternal'',
         JObj [(''publishAllow'', JArr [JStr ''b'', JStr ''a'']),
               (''subscribeAllow'', JArr [JStr ''_INBOX.>''])])]"

text \<open>The principals that the expansion of the sample document yields.\<close>

definition sample_users :: "principal list" where
  "sample_users =
    [\<lparr>username = ''r.C1'', role = ''relayCentral'', zone = None, subzone = None,
       leafId = None, publish = [''up.>'', ''a'', ''up.>''], subscribe = [''dn.>'']\<rparr>,
     \<lparr>username = ''r.z1'', role = ''relayZone'', zone = Some (JStr ''z1''), subzone = None,
       leafId = None, publish = [''up.z1''], subscribe = []\<rparr>,
     \<lparr>username = ''r.z2'', role = ''relayZone'', zone = Some (JStr ''z2''), subzone = None,
       leafId = None, publish = [''up.z2''], subscribe = []\<rparr>,
     \<lparr>username = ''r.z1.sz1'', role = ''relaySubzone'', zone = Some (JStr ''z1''),
       subzone = Some (JStr ''sz1''), leafId = None, publish = [], subscribe = [''dn.sz1'']\<rparr>,
     \<lparr>username = ''r.z2.sz1'', role = ''relaySubzone'', zone = Some (JStr ''z2''),
       subzone = Some (JStr ''sz1''), leafId = None, publish = [], subscribe = [''dn.sz1'']\<rparr>,
     \<lparr>username = ''l.leaf1'', role = ''leafCentral'', zone = Some (JStr ''z0''),
       subzone = None, leafId = Some (JStr ''leaf1''), publish = [''e.leaf1''], subscribe = []\<rparr>,
     \<lparr>username = ''leaf.z1.leaf1'', role = ''leafZone'', zone = Some (JStr ''z1''),
       subzone = None, leafId = Some (JStr ''leaf1''), publish = [], subscribe = []\<rparr>,
     \<lparr>username = ''leaf.z2.leaf1'', role = ''leafZone'', zone = Some (JStr ''z2''),
       subzone = None, leafId = Some (JStr ''leaf1''), publish = [], subscribe = []\<rparr>,
     \<lparr>username = ''l.z1.sz1.leaf1'', role = ''leafSubzone'', zone = Some (JStr ''z1''),
       subzone = Some (JStr ''sz1''), leafId = Some (JStr ''leaf1''), publish = [],
       subscribe = []\<rparr>,
     \<lparr>username = ''l.z2.sz1.leaf1'', role = ''leafSubzone'', zone = Some (JStr ''z2''),
       subzone = Some (JStr ''sz1''), leafId = Some (JStr ''leaf1''), publish = [],
       subscribe = []\<rparr>]"

text \<open>
  A smaller document: one zone, no subzone, no leaf, and only the two roles that such a
  topology instantiates. \<open>small_users\<close> is its expansion; \<open>small_entries_enforced\<close>
  and \<open>small_entries_plain\<close> are the entries, and \<open>small_text_enforced\<close> and
  \<open>small_text_plain\<close> the configuration texts, that it yields with the \<^verbatim>\<open>auth\<close>
  block \<open>sample_auth\<close>.
\<close>

definition small_cfg :: "json \<Rightarrow> json" where
  "small_cfg auth = JObj
     [(''topology'', JObj
        [(''centralId'', JStr ''C1''),
         (''zones'', JArr [JStr ''z1'']),
         (''subzonesPerZone'', JArr []),
         (''leavesPerAttachment'', JArr []),
         (''defaults'', JObj [(''zoneForCentralAttachedLeaves'', JStr ''z0'')])]),
      (''roles'', JObj
        [(''relayCentral'', sample_role ''r.{centralId}'' [''up.>'', ''a'', ''up.>''] [''dn.>'']),
         (''relayZone'', sample_role ''r.{zone}'' [''up.{zone}''] [])]),
      (''auth'', auth)]"

definition small_users :: "principal list" where
  "small_users =
    [\<lparr>username = ''r.C1'', role = ''relayCentral'', zone = None, subzone = None,
       leafId = None, publish = [''up.>'', ''a'', ''up.>''], subscribe = [''dn.>'']\<rparr>,
     \<lparr>username = ''r.z1'', role = ''relayZone'', zone = Some (JStr ''z1''), subzone = None,
       leafId = None, publish = [''up.z1''], subscribe = []\<rparr>]"

definition small_entries_enforced :: "entry list" where
  "small_entries_enforced =
    [\<lparr>user = JStr ''admin'', password = JStr ''s3'',
       permissions = Some (JArr [JStr ''>''], JArr [JStr ''>''])\<rparr>,
     \<lparr>user = JStr ''r.C1'', password = JStr ''pw_r.C1'',
       permissions = Some (JArr [JStr ''a'', JStr ''b'', JStr ''up.>''],
                           JArr [JStr ''_INBOX.>'', JStr ''dn.>''])\<rparr>,
     \<lparr>user = JStr ''r.z1'', password = JStr ''pw_r.z1'',
       permissions = Some (JArr [JStr ''a'', JStr ''b'', JStr ''up.z1''],
                           JArr [JStr ''_INBOX.>''])\<rparr>]"

definition small_entries_plain :: "entry list" where
  "small_entries_plain =
    [\<lparr>user = JStr ''admin'', password = JStr ''s3'', permissions = None\<rparr>,
     \<lparr>user = JStr ''r.C1'', password = JStr ''pw_r.C1'', permissions = None\<rparr>,
     \<lparr>user = JStr ''r.z1'', password = JStr ''pw_r.z1'', permissions = None\<rparr>]"

definition small_text_plain :: string where
  "small_text_plain = join [newline]
    [''authorization {'',
     ''  users = ['',
     ''    {'',
     ''      user = '' @ q_str ''admin'',
     ''      password = '' @ q_str ''s3'',
     ''    },'',
     ''    {'',
     ''      user = '' @ q_str ''r.C1'',
     ''      password = '' @ q_str ''pw_r.C1'',
     ''    },'',
     ''    {'',
     ''      user = '' @ q_str ''r.z1'',
     ''      password = '' @ q_str ''pw_r.z1'',
     ''    }'',
     ''  ]'',
     ''}''] @ [newline]"

definition small_text_enforced :: string where
  "small_text_enforced = join [newline]
    [''authorization {'',
     ''  users = ['',
     ''    {'',
     ''      user = '' @ q_str ''admin'',
     ''      password = '' @ q_str ''s3'',
     ''      permissions = {'',
     ''        publish = {'',
     ''          allow = ['' @ q_str ''>'' @ '']'',
     ''        }'',
     ''        subscribe = {'',
     ''          allow = ['' @ q_str ''>'' @ '']'',
     ''        }'',
     ''      }'',
     ''    },'',
     ''    {'',
     ''      user = '' @ q_str ''r.C1'',
     ''      password = '' @ q_str ''pw_r.C1'',
     ''      permissions = {'',
     ''        publish = {'',
     ''          allow = ['' @ q_str ''a'' @ '', '' @ q_str ''b'' @ '', '' @ q_str ''up.>'' @ '']'',
     ''        }'',
     ''        subscribe = {'',
     ''          allow = ['' @ q_str ''_INBOX.>'' @ '', '' @ q_str ''dn.>'' @ '']'',
     ''        }'',
     ''      }'',
     ''    },'',
     ''    {'',
     ''      user = '' @ q_str ''r.z1'',
     ''      password = '' @ q_str ''pw_r.z1'',
     ''      permissions = {'',
     ''        publish = {'',
     ''          allow = ['' @ q_str ''a'' @ '', '' @ q_str ''b'' @ '', '' @ q_str ''up.z1'' @ '']'',
     ''        }'',
     ''        subscribe = {'',
     ''          allow = ['' @ q_str ''_INBOX.>'' @ '']'',
     ''        }'',
     ''      }'',
     ''    }'',
     ''  ]'',
     ''}''] @ [newline]"

text \<open>
  One run of the interpreter in which the string under \<^verbatim>\<open>centralId\<close> lies at the
  address \<open>addr\<close>: the field \<^verbatim>\<open>centralId.__init__\<close> writes the method with that
  address, and the field \<^verbatim>\<open>centralId.nope\<close> raises \<^verbatim>\<open>AttributeError\<close>, a string
  having no such attribute, as in Python. No other field with an accessor, a conversion
  or a format specification is evaluated below. \<open>run_a\<close> and \<open>run_b\<close> are two
  such runs; \<open>attr_cfg\<close> is the small document with that field in the user name
  pattern of the central relay.
\<close>

definition run_at :: "string \<Rightarrow> field_runtime" where
  "run_at addr kw field =
     (if field = ''centralId.__init__''
      then Inr (''<method-wrapper '__init__' of str object at '' @ addr @ ''>'')
      else if field = ''centralId.nope'' then Inl AttributeError
      else Inl Unsupported)"

definition run_a :: field_runtime where
  "run_a = run_at ''0x7f3a5c1e2b30''"

definition run_b :: field_runtime where
  "run_b = run_at ''0x7f8e4d2a9c70''"

definition attr_cfg :: "json \<Rightarrow> json" where
  "attr_cfg auth = JObj
     [(''topology'', JObj
        [(''centralId'', JStr ''C1''),
         (''zones'', JArr []),
         (''subzonesPerZone'', JArr []),
         (''leavesPerAttachment'', JArr []),
         (''defaults'', JObj [(''zoneForCentralAttachedLeaves'', JStr ''z0'')])]),
      (''roles'', JObj
        [(''relayCentral'', sample_role ''r.{centralId.__init__}'' [] [])]),
      (''auth'', auth)]"

section \<open>Results and sequencing\<close>

lemma bnd_Inl [simp]: "bnd (Inl e) f = Inl e"
  by (simp add: bnd_def)

lemma bnd_Inr [simp]: "bnd (Inr x) f = f x"
  by (simp add: bnd_def)

lemma bnd_Inr_iff: "bnd m f = Inr y \<longleftrightarrow> (\<exists>x. m = Inr x \<and> f x = Inr y)"
  by (cases m) simp_all

section \<open>The check of the administrator's credentials\<close>

lemma authz_users_admin_error:
  assumes "dict_get cfg ''auth'' (JObj []) = Inr auth_cfg"
    and "dict_get auth_cfg ''admin'' JNull = Inr a"
    and "dict_get (if truthy a then a else JObj []) ''username'' JNull = Inr au"
    and "dict_get (if truthy a then a else JObj []) ''password'' JNull = Inr ap"
    and "\<not> truthy au \<or> \<not> truthy ap"
  shows "authz_users rt si cfg = Inl admin_error"
proof -
  obtain kvs where k: "auth_cfg = JObj kvs"
    using assms(2) by (cases auth_cfg) simp_all
  show ?thesis
    using assms unfolding authz_users_def k by (auto simp: Let_def)
qed

text \<open>
  Claim C4. Let \<open>a\<close> be what the document has under \<^verbatim>\<open>auth.admin\<close> (\<^verbatim>\<open>None\<close> when
  there is no such key), so that the administrator's block is \<open>a\<close>, or the empty dict
  when \<open>a\<close> is falsy. If the user name or the password of that block is missing or
  falsy (empty), \<open>build_nats_authz\<close> raises the \<^verbatim>\<open>ValueError\<close> of source line 162,
  whatever the mode and whatever the rest of the document holds. The result is the error
  alone: no text is returned, not even a part of it.
\<close>

theorem admin_credentials_required:
  assumes "dict_get cfg ''auth'' (JObj []) = Inr auth_cfg"
    and "dict_get auth_cfg ''admin'' JNull = Inr a"
    and "dict_get (if truthy a then a else JObj []) ''username'' JNull = Inr au"
    and "dict_get (if truthy a then a else JObj []) ''password'' JNull = Inr ap"
    and "\<not> truthy au \<or> \<not> truthy ap"
  shows "build_nats_authz rt si cfg = Inl admin_error"
  unfolding build_nats_authz_def
  by (simp add: authz_users_admin_error [OF assms])

theorem admin_credentials_required_witness:
  "build_nats_authz run_a remdups
     (sample_cfg (JObj [(''admin'', JObj [(''username'', JStr ''admin'')])]))
   = Inl admin_error"
  using admin_credentials_required
    [of "sample_cfg (JObj [(''admin'', JObj [(''username'', JStr ''admin'')])])"
        "JObj [(''admin'', JObj [(''username'', JStr ''admin'')])]"
        "JObj [(''username'', JStr ''admin'')]" "JStr ''admin''" JNull run_a remdups]
  by (simp add: sample_cfg_def)

text \<open>
  Claim C10. The check does not wait for the enforcement branch: with
  \<^verbatim>\<open>auth.enforcePermissions\<close> falsy (authentication only) a missing or empty user name
  or password of the administrator raises the same error, already while the list of
  users is built.
\<close>

theorem admin_check_in_auth_only_mode:
  assumes "dict_get cfg ''auth'' (JObj []) = Inr auth_cfg"
    and "dict_get auth_cfg ''enforcePermissions'' (JBool True) = Inr ep"
    and "\<not> truthy ep"
    and "dict_get auth_cfg ''admin'' JNull = Inr a"
    and "dict_get (if truthy a then a else JObj []) ''username'' JNull = Inr au"
    and "dict_get (if truthy a then a else JObj []) ''password'' JNull = Inr ap"
    and "\<not> truthy au \<or> \<not> truthy ap"
  shows "authz_users rt si cfg = Inl admin_error \<and> build_nats_authz rt si cfg = Inl admin_error"
  unfolding build_nats_authz_def
  by (simp add: authz_users_admin_error [OF assms(1) assms(4-7)])

theorem admin_check_in_auth_only_mode_witness:
  "authz_users run_a remdups
     (sample_cfg (JObj [(''enforcePermissions'', JBool False),
                        (''admin'', JObj [(''username'', JStr ''admin''),
                                          (''password'', JStr [])])]))
   = Inl admin_error \<and>
   build_nats_authz run_a remdups
     (sample_cfg (JObj [(''enforcePermissions'', JBool False),
                        (''admin'', JObj [(''username'', JStr ''admin''),
                                          (''password'', JStr [])])]))
   = Inl admin_error"
  using admin_check_in_auth_only_mode
    [of "sample_cfg (JObj [(''enforcePermissions'', JBool False),
                           (''admin'', JObj [(''username'', JStr ''admin''),
                                             (''password'', JStr [])])])"
        "JObj [(''enforcePermissions'', JBool False),
               (''admin'', JObj [(''username'', JStr ''admin''), (''password'', JStr [])])]"
        "JBool False"
        "JObj [(''username'', JStr ''admin''), (''password'', JStr [])]"
        "JStr ''admin''" "JStr []" run_a remdups]
  by (simp add: sample_cfg_def)

section \<open>The shape of the expansion\<close>

lemma for_list_map:
  assumes "\<And>x ys. body x = Inr ys \<Longrightarrow> map g ys = h x"
    and "for_list xs body = Inr r"
  shows "map g r = concat (map h xs)"
  using assms(2)
proof (induction xs arbitrary: r)
  case Nil
  then show ?case by simp
next
  case (Cons x xs)
  then obtain a b where "body x = Inr a" "for_list xs body = Inr b" "r = a @ b"
    by (auto simp: bnd_Inr_iff)
  with Cons.IH assms(1) show ?case by simp
qed

lemma for_each_JArr [simp]: "for_each (JArr xs) body = for_list xs body"
  by (simp add: for_each_def)

lemma mk_user_position:
  "mk_user rt roles r kwu kws z sz leaf = Inr us \<Longrightarrow> map position us = [(r, z, sz, leaf)]"
  by (auto simp: mk_user_def bnd_Inr_iff position_def)

lemma expand_loops_positions:
  assumes "expand_loops rt roles cid zc (JArr zs) (JArr szs) (JArr ls) = Inr us"
  shows "map position us =
    [(''relayCentral'', None, None, None)] @
    map (\<lambda>z. (''relayZone'', Some z, None, None)) zs @
    concat (map (\<lambda>z. map (\<lambda>sz. (''relaySubzone'', Some z, Some sz, None)) szs) zs) @
    map (\<lambda>l. (''leafCentral'', Some zc, None, Some l)) ls @
    concat (map (\<lambda>z. map (\<lambda>l. (''leafZone'', Some z, None, Some l)) ls) zs) @
    concat (map (\<lambda>z. concat (map (\<lambda>sz.
              map (\<lambda>l. (''leafSubzone'', Some z, Some sz, Some l)) ls) szs)) zs)"
proof -
  from assms obtain u0 u1 u2 u3 u4 u5 where
    u0: "central_relay rt roles cid zc = Inr u0" and
    u1: "for_list zs (\<lambda>z. zone_relay rt roles cid z) = Inr u1" and
    u2: "for_list zs (\<lambda>z. for_list szs (\<lambda>sz. subzone_relay rt roles cid z sz)) = Inr u2" and
    u3: "for_list ls (\<lambda>leaf. central_leaf rt roles cid zc leaf) = Inr u3" and
    u4: "for_list zs (\<lambda>z. for_list ls (\<lambda>leaf. zone_leaf rt roles cid z leaf)) = Inr u4" and
    u5: "for_list zs (\<lambda>z. for_list szs (\<lambda>sz.
           for_list ls (\<lambda>leaf. subzone_leaf rt roles cid z sz leaf))) = Inr u5" and
    us: "us = u0 @ u1 @ u2 @ u3 @ u4 @ u5"
    by (auto simp: expand_loops_def bnd_Inr_iff)
  have p0: "map position u0 = [(''relayCentral'', None, None, None)]"
    using u0 by (simp add: central_relay_def mk_user_position)
  have p1: "map position u1 = concat (map (\<lambda>z. [(''relayZone'', Some z, None, None)]) zs)"
    by (rule for_list_map [OF _ u1]) (simp add: zone_relay_def Let_def mk_user_position)
  have p2: "map position u2 =
      concat (map (\<lambda>z. concat (map (\<lambda>sz. [(''relaySubzone'', Some z, Some sz, None)]) szs)) zs)"
    by (rule for_list_map [OF _ u2], rule for_list_map)
       (simp_all add: subzone_relay_def Let_def mk_user_position)
  have p3: "map position u3 = concat (map (\<lambda>l. [(''leafCentral'', Some zc, None, Some l)]) ls)"
    by (rule for_list_map [OF _ u3]) (simp add: central_leaf_def Let_def mk_user_position)
  have p4: "map position u4 =
      concat (map (\<lambda>z. concat (map (\<lambda>l. [(''leafZone'', Some z, None, Some l)]) ls)) zs)"
    by (rule for_list_map [OF _ u4], rule for_list_map)
       (simp_all add: zone_leaf_def Let_def mk_user_position)
  have p5: "map position u5 =
      concat (map (\<lambda>z. concat (map (\<lambda>sz. concat (map (\<lambda>l.
         [(''leafSubzone'', Some z, Some sz, Some l)]) ls)) szs)) zs)"
    by (rule for_list_map [OF _ u5], rule for_list_map, rule for_list_map)
       (simp_all add: subzone_leaf_def Let_def mk_user_position)
  have single: "\<And>f xs. concat (map (\<lambda>x. [f x]) xs) = map f xs"
    by (simp add: concat_map_singleton)
  show ?thesis
    unfolding us by (simp add: p0 p1 p2 p3 p4 p5 single)
qed

lemma expand_role_users_loops:
  assumes "getitem cfg ''topology'' = Inr t"
    and "getitem t ''zones'' = Inr zones"
    and "getitem t ''subzonesPerZone'' = Inr subzones"
    and "getitem t ''leavesPerAttachment'' = Inr leaves"
    and "getitem t ''defaults'' = Inr d"
    and "getitem d ''zoneForCentralAttachedLeaves'' = Inr zc"
    and "expand_role_users rt cfg = Inr us"
  shows "\<exists>roles cid. expand_loops rt roles cid zc zones subzones leaves = Inr us"
  using assms unfolding expand_role_users_def by (auto simp: bnd_Inr_iff)

lemma length_concat_const:
  "(\<And>x. x \<in> set xs \<Longrightarrow> length (f x) = k) \<Longrightarrow> length (concat (map f xs)) = length xs * k"
  by (induction xs) simp_all

lemma sample_expansion: "expand_role_users rt (sample_cfg auth) = Inr sample_users"
  by (simp add: expand_role_users_def sample_cfg_def sample_topology_def sample_roles_def
      sample_role_def expand_loops_def central_relay_def zone_relay_def subzone_relay_def
      central_leaf_def zone_leaf_def subzone_leaf_def mk_user_def user_name_def subjects_def
      lookup_field_def is_digit_def sample_users_def Let_def)


lemma sample_topology_lookups:
  "getitem (sample_cfg auth) ''topology'' = Inr sample_topology"
  "getitem sample_topology ''zones'' = Inr (JArr [JStr ''z1'', JStr ''z2''])"
  "getitem sample_topology ''subzonesPerZone'' = Inr (JArr [JStr ''sz1''])"
  "getitem sample_topology ''leavesPerAttachment'' = Inr (JArr [JStr ''leaf1''])"
  "getitem sample_topology ''defaults'' = Inr (JObj [(''zoneForCentralAttachedLeaves'', JStr ''z0'')])"
  by (simp_all add: sample_cfg_def sample_topology_def)

text \<open>
  Claim C3. For a topology whose three sequences are lists, the principals come in the
  order of the six loops: the central relay; the zone relays in zone order; the subzone
  relays, zone by zone and within a zone in subzone order; the central-attached leaves
  in leaf order, tagged with the default zone; the zone-attached leaves, zone by zone
  and then by leaf; the subzone-attached leaves, by zone, then subzone, then leaf. Each
  level is walked in the order of the document's list; nothing is sorted.
\<close>

theorem expansion_order:
  assumes "getitem cfg ''topology'' = Inr t"
    and "getitem t ''zones'' = Inr (JArr zs)"
    and "getitem t ''subzonesPerZone'' = Inr (JArr szs)"
    and "getitem t ''leavesPerAttachment'' = Inr (JArr ls)"
    and "getitem t ''defaults'' = Inr d"
    and "getitem d ''zoneForCentralAttachedLeaves'' = Inr zc"
    and "expand_role_users rt cfg = Inr us"
  shows "map position us =
    [(''relayCentral'', None, None, None)] @
    map (\<lambda>z. (''relayZone'', Some z, None, None)) zs @
    concat (map (\<lambda>z. map (\<lambda>sz. (''relaySubzone'', Some z, Some sz, None)) szs) zs) @
    map (\<lambda>l. (''leafCentral'', Some zc, None, Some l)) ls @
    concat (map (\<lambda>z. map (\<lambda>l. (''leafZone'', Some z, None, Some l)) ls) zs) @
    concat (map (\<lambda>z. concat (map (\<lambda>sz.
              map (\<lambda>l. (''leafSubzone'', Some z, Some sz, Some l)) ls) szs)) zs)"
  using expand_role_users_loops [OF assms] expand_loops_positions by blast

theorem expansion_order_witness:
  "expand_role_users run_a (sample_cfg JNull) = Inr sample_users \<and>
   map position sample_users =
     [(''relayCentral'', None, None, None),
      (''relayZone'', Some (JStr ''z1''), None, None),
      (''relayZone'', Some (JStr ''z2''), None, None),
      (''relaySubzone'', Some (JStr ''z1''), Some (JStr ''sz1''), None),
      (''relaySubzone'', Some (JStr ''z2''), Some (JStr ''sz1''), None),
      (''leafCentral'', Some (JStr ''z0''), None, Some (JStr ''leaf1'')),
      (''leafZone'', Some (JStr ''z1''), None, Some (JStr ''leaf1'')),
      (''leafZone'', Some (JStr ''z2''), None, Some (JStr ''leaf1'')),
      (''leafSubzone'', Some (JStr ''z1''), Some (JStr ''sz1''), Some (JStr ''leaf1'')),
      (''leafSubzone'', Some (JStr ''z2''), Some (JStr ''sz1''), Some (JStr ''leaf1''))]"
proof -
  have zc: "getitem (JObj [(''zoneForCentralAttachedLeaves'', JStr ''z0'')])
      ''zoneForCentralAttachedLeaves'' = Inr (JStr ''z0'')"
    by simp
  show ?thesis
    using expansion_order [OF sample_topology_lookups zc sample_expansion]
    by (simp add: sample_expansion)
qed

text \<open>
  Claim C2. For a topology with \<open>Z\<close> zones, \<open>S\<close> subzones and \<open>L\<close> leaves the
  expansion returns \<open>1 + Z + Z * S + L + Z * L + Z * S * L\<close> principals.
\<close>

theorem expansion_cardinality:
  assumes "getitem cfg ''topology'' = Inr t"
    and "getitem t ''zones'' = Inr (JArr zs)"
    and "getitem t ''subzonesPerZone'' = Inr (JArr szs)"
    and "getitem t ''leavesPerAttachment'' = Inr (JArr ls)"
    and "expand_role_users rt cfg = Inr us"
  shows "length us =
    1 + length zs + length zs * length szs + length ls + length zs * length ls +
    length zs * length szs * length ls"
proof -
  from assms(5) assms(1) obtain d zc where
    d: "getitem t ''defaults'' = Inr d" "getitem d ''zoneForCentralAttachedLeaves'' = Inr zc"
    unfolding expand_role_users_def by (auto simp: bnd_Inr_iff)
  from expand_role_users_loops [OF assms(1-4) d assms(5)] obtain roles cid where
    "expand_loops rt roles cid zc (JArr zs) (JArr szs) (JArr ls) = Inr us" by blast
  from expand_loops_positions [OF this]
  have "length (map position us) = 1 + length zs + length zs * length szs + length ls +
      length zs * length ls + length zs * length szs * length ls"
    by (simp add: length_concat_const mult.assoc)
  then show ?thesis by simp
qed

theorem expansion_cardinality_witness:
  "expand_role_users run_a (sample_cfg JNull) = Inr sample_users \<and>
   length sample_users = 1 + 2 + 2 * 1 + 1 + 2 * 1 + 2 * 1 * 1"
  using expansion_cardinality [OF sample_topology_lookups(1-4) sample_expansion]
  by (simp add: sample_expansion)

section \<open>Placeholders that have no value\<close>














section \<open>Quoting\<close>

lemma literal_body_replace_quote:
  "backslash \<notin> set val \<Longrightarrow> literal_body (replace_quote val @ [dquote]) = Some val"
  by (induction val) (auto simp: dquote_def backslash_def)

lemma replace_quote_concat:
  "replace_quote val = concat (map (\<lambda>c. if c = dquote then [backslash, dquote] else [c]) val)"
  by (induction val) simp_all

text \<open>
  Claim C7, as the code has it. For every value, \<^verbatim>\<open>q\<close> writes the value between
  double quotes with a backslash before each double quote of the value, and nothing else
  changed. When the value has no backslash, reading the literal back gives the value.
\<close>

theorem q_literal_round_trip:
  "q (JStr val) =
      Inr ([dquote] @ concat (map (\<lambda>c. if c = dquote then [backslash, dquote] else [c]) val)
           @ [dquote]) \<and>
   (backslash \<notin> set val \<longrightarrow> parse_literal (q_str val) = Some val)"
proof
  show "q (JStr val) =
      Inr ([dquote] @ concat (map (\<lambda>c. if c = dquote then [backslash, dquote] else [c]) val)
           @ [dquote])"
    by (simp add: q_str_def replace_quote_concat)
  show "backslash \<notin> set val \<longrightarrow> parse_literal (q_str val) = Some val"
    by (simp add: q_str_def parse_literal_def literal_body_replace_quote)
qed

theorem q_literal_round_trip_witness:
  "q (JStr (''a'' @ [dquote] @ ''b'')) =
     Inr ([dquote] @ ''a'' @ [backslash, dquote] @ ''b'' @ [dquote]) \<and>
   backslash \<notin> set (''a'' @ [dquote] @ ''b'') \<and>
   parse_literal (q_str (''a'' @ [dquote] @ ''b'')) = Some (''a'' @ [dquote] @ ''b'')"
  using q_literal_round_trip [of "''a'' @ [dquote] @ ''b''"]
  by (simp add: backslash_def dquote_def q_str_def parse_literal_def)

text \<open>
  Claim C7, as stated, has the literal read back for every value. \<^verbatim>\<open>q\<close> escapes double
  quotes only: the value that is one backslash is written as quote, backslash, quote,
  where the backslash escapes the closing quote, and the literal does not read back.
\<close>

theorem q_backslash_not_escaped:
  "q (JStr [backslash]) = Inr [dquote, backslash, dquote] \<and>
   parse_literal [dquote, backslash, dquote] = None"
  by (simp add: q_str_def parse_literal_def dquote_def backslash_def)

section \<open>The entries of \<^verbatim>\<open>users\<close>\<close>

text \<open>The small document, evaluated.\<close>

lemmas expand_defs = expand_role_users_def expand_loops_def central_relay_def zone_relay_def
  subzone_relay_def central_leaf_def zone_leaf_def subzone_leaf_def mk_user_def user_name_def
  subjects_def lookup_field_def is_digit_def Let_def

lemma small_expansion: "expand_role_users rt (small_cfg auth) = Inr small_users"
  by (simp add: expand_defs small_cfg_def sample_role_def small_users_def)

lemma small_auth: "dict_get (small_cfg auth) ''auth'' (JObj []) = Inr auth"
  by (simp add: small_cfg_def)

lemma small_authz_plain:
  "authz_users rt si (small_cfg (sample_auth False)) = Inr (False, small_entries_plain)"
  unfolding authz_users_def small_auth small_expansion
  by (simp add: small_entries_plain_def small_users_def admin_entry_plain_def
      role_entry_plain_def sample_auth_def sample_admin_def)

lemma small_authz_enforced:
  "authz_users rt remdups (small_cfg (sample_auth True)) = Inr (True, small_entries_enforced)"
  unfolding authz_users_def small_auth small_expansion
  by (simp add: small_entries_enforced_def small_users_def admin_entry_enforced_def
      role_entry_enforced_def allow_list_def sample_auth_def sample_admin_def)

lemma small_build_plain:
  "build_nats_authz rt si (small_cfg (sample_auth False)) = Inr small_text_plain"
  by (simp add: build_nats_authz_def small_authz_plain render_def out_lines_def entry_lines_def
      small_entries_plain_def small_text_plain_def)

lemma small_build_enforced:
  "build_nats_authz rt remdups (small_cfg (sample_auth True)) = Inr small_text_enforced"
  by (simp add: build_nats_authz_def small_authz_enforced render_def out_lines_def
      entry_lines_def permission_lines_def allow_line_def small_entries_enforced_def
      small_text_enforced_def)

text \<open>What a successful run of the first half of \<^verbatim>\<open>build_nats_authz\<close> went through.\<close>

lemma comprehension_Inr:
  "comprehension f xs = Inr ys \<Longrightarrow> list_all2 (\<lambda>x y. f x = Inr y) xs ys"
  by (induction xs arbitrary: ys) (auto simp: bnd_Inr_iff)

lemma authz_users_Inr:
  assumes "authz_users rt si cfg = Inr (en, es)"
  shows "\<exists>auth_cfg ep pp a0 us es'.
    dict_get cfg ''auth'' (JObj []) = Inr auth_cfg \<and>
    dict_get auth_cfg ''enforcePermissions'' (JBool True) = Inr ep \<and> en = truthy ep \<and>
    dict_get auth_cfg ''passwordPrefix'' (JStr ''pwd_'') = Inr pp \<and>
    expand_role_users rt cfg = Inr us \<and> es = a0 # es' \<and>
    (if en then
       \<exists>ji jp js.
         dict_get auth_cfg ''jsClientInternal'' (JObj []) = Inr ji \<and>
         dict_get ji ''publishAllow'' (JArr []) = Inr jp \<and>
         dict_get ji ''subscribeAllow'' (JArr []) = Inr js \<and>
         comprehension (role_entry_enforced si pp jp js) us = Inr es'
     else comprehension (role_entry_plain pp) us = Inr es')"
  using assms unfolding authz_users_def
  by (auto simp: bnd_Inr_iff Let_def split: if_splits)

section \<open>Rendering without enforcement\<close>

lemma q_Inr: "q v = Inr s \<Longrightarrow> \<exists>val. v = JStr val \<and> s = q_str val"
  by (cases v) auto

lemma entry_lines_plain:
  assumes "entry_lines False l e = Inr b"
  shows "\<exists>u p. user e = JStr u \<and> password e = JStr p \<and>
    b = [''    {'', ''      user = '' @ q_str u, ''      password = '' @ q_str p,
         ''    }'' @ (if l then [] else '','')]"
  using assms unfolding entry_lines_def
  by (auto simp: bnd_Inr_iff dest!: q_Inr)

lemma users_lines_plain:
  "users_lines False es = Inr ls \<Longrightarrow>
   \<exists>blocks. ls = concat blocks \<and> length blocks = length es \<and>
     (\<forall>b\<in>set blocks. \<exists>u p c.
        (c = [] \<or> c = '','') \<and>
        b = [''    {'', ''      user = '' @ q_str u, ''      password = '' @ q_str p,
             ''    }'' @ c])"
proof (induction es arbitrary: ls)
  case Nil
  then show ?case by simp
next
  case (Cons e es)
  from Cons.prems obtain b r where
    b: "entry_lines False (es = []) e = Inr b" and r: "users_lines False es = Inr r" and
    ls: "ls = b @ r"
    by (auto simp: bnd_Inr_iff)
  from Cons.IH [OF r] obtain blocks where
    bl: "r = concat blocks" "length blocks = length es"
      "\<forall>b\<in>set blocks. \<exists>u p c.
        (c = [] \<or> c = '','') \<and>
        b = [''    {'', ''      user = '' @ q_str u, ''      password = '' @ q_str p,
             ''    }'' @ c]"
    by blast
  from entry_lines_plain [OF b] obtain u p where
    "b = [''    {'', ''      user = '' @ q_str u, ''      password = '' @ q_str p,
         ''    }'' @ (if es = [] then [] else '','')]"
    by blast
  then have "\<exists>u p c. (c = [] \<or> c = '','') \<and> b = [''    {'', ''      user = '' @ q_str u,
      ''      password = '' @ q_str p, ''    }'' @ c]"
    by (cases "es = []") auto
  with bl ls show ?case
    by (intro exI [of _ "b # blocks"]) simp
qed

lemma small_enforce:
  "dict_get (sample_auth b) ''enforcePermissions'' (JBool True) = Inr (JBool b)"
  by (simp add: sample_auth_def)

text \<open>
  Claim C5. With \<^verbatim>\<open>auth.enforcePermissions\<close> falsy, the text that
  \<open>build_nats_authz\<close> returns is the two opening lines, one block of lines per entry,
  and the two closing lines, and every block, the administrator's included, is exactly
  four lines: the opening brace, the user, the password, and the closing brace with or
  without its comma. There is one block for the administrator and one per expanded
  principal; no block has a \<^verbatim>\<open>permissions\<close> line.
\<close>

theorem auth_only_has_no_permissions:
  assumes "dict_get cfg ''auth'' (JObj []) = Inr auth_cfg"
    and "dict_get auth_cfg ''enforcePermissions'' (JBool True) = Inr ep"
    and "\<not> truthy ep"
    and "build_nats_authz rt si cfg = Inr text"
  shows "\<exists>blocks us.
    text = join [newline]
      ([''authorization {'', ''  users = [''] @ concat blocks @ [''  ]'', ''}'']) @ [newline] \<and>
    expand_role_users rt cfg = Inr us \<and> length blocks = Suc (length us) \<and>
    (\<forall>b\<in>set blocks. \<exists>u p c.
       (c = [] \<or> c = '','') \<and>
       b = [''    {'', ''      user = '' @ q_str u, ''      password = '' @ q_str p,
            ''    }'' @ c])"
proof -
  from assms(4) obtain en es where
    au: "authz_users rt si cfg = Inr (en, es)" and re: "render en es = Inr text"
    by (auto simp: build_nats_authz_def bnd_Inr_iff)
  from authz_users_Inr [OF au] obtain auth' ep' pp a0 us es' where
    a: "dict_get cfg ''auth'' (JObj []) = Inr auth'" and
    e: "dict_get auth' ''enforcePermissions'' (JBool True) = Inr ep'" and
    en: "en = truthy ep'" and
    us: "expand_role_users rt cfg = Inr us" and es: "es = a0 # es'" and
    c: "if en then
          \<exists>ji jp js.
            dict_get auth' ''jsClientInternal'' (JObj []) = Inr ji \<and>
            dict_get ji ''publishAllow'' (JArr []) = Inr jp \<and>
            dict_get ji ''subscribeAllow'' (JArr []) = Inr js \<and>
            comprehension (role_entry_enforced si pp jp js) us = Inr es'
        else comprehension (role_entry_plain pp) us = Inr es'"
    by blast
  from a e assms(1,2) have "ep' = ep" by simp
  with en assms(3) have nen: "\<not> en" by simp
  with c have "comprehension (role_entry_plain pp) us = Inr es'" by simp
  from comprehension_Inr [OF this] have len: "length es' = length us"
    by (simp add: list_all2_lengthD)
  from re nen obtain ls where
    ls: "users_lines False es = Inr ls" and
    tx: "text = join [newline]
      ([''authorization {'', ''  users = [''] @ ls @ [''  ]'', ''}'']) @ [newline]"
    by (auto simp: render_def out_lines_def bnd_Inr_iff)
  from users_lines_plain [OF ls] obtain blocks where
    "ls = concat blocks" "length blocks = length es"
    "\<forall>b\<in>set blocks. \<exists>u p c.
        (c = [] \<or> c = '','') \<and>
        b = [''    {'', ''      user = '' @ q_str u, ''      password = '' @ q_str p,
             ''    }'' @ c]"
    by blast
  with tx us es len show ?thesis
    by (intro exI [of _ blocks] exI [of _ us]) simp
qed

theorem auth_only_has_no_permissions_witness:
  "build_nats_authz run_a remdups (small_cfg (sample_auth False)) = Inr small_text_plain \<and>
   (\<exists>blocks us.
      small_text_plain = join [newline]
        ([''authorization {'', ''  users = [''] @ concat blocks @ [''  ]'', ''}''])
        @ [newline] \<and>
      expand_role_users run_a (small_cfg (sample_auth False)) = Inr us \<and>
      length blocks = Suc (length us) \<and>
      (\<forall>b\<in>set blocks. \<exists>u p c.
         (c = [] \<or> c = '','') \<and>
         b = [''    {'', ''      user = '' @ q_str u, ''      password = '' @ q_str p,
              ''    }'' @ c]))"
  using auth_only_has_no_permissions [OF small_auth small_enforce _ small_build_plain]
  by (simp add: small_build_plain)


section \<open>The text of the role entries\<close>

lemma entry_lines_block:
  assumes "entry_lines en l e = Inr b"
  shows "\<exists>u p pl. user e = JStr u \<and> password e = JStr p \<and>
    (if en then permission_lines e else Inr []) = Inr pl \<and> b = role_block u p pl l"
  using assms unfolding entry_lines_def role_block_def
  by (auto simp: bnd_Inr_iff dest!: q_Inr)

lemma users_lines_roles:
  assumes "\<And>u e. f u = Inr e \<Longrightarrow> user e = JStr (username u) \<and> password e = JStr (p u)"
  shows "comprehension f us = Inr es \<Longrightarrow> users_lines en es = Inr ls \<Longrightarrow>
    ls = role_blocks
      (\<lambda>u. role_block (username u) (p u)
         (case bnd (f u) (\<lambda>e. if en then permission_lines e else Inr []) of
            Inl x \<Rightarrow> [] | Inr pl \<Rightarrow> pl))
      us"
proof (induction us arbitrary: es ls)
  case Nil
  then show ?case by simp
next
  case (Cons u us)
  from Cons.prems(1) obtain e es' where
    e: "f u = Inr e" and es': "comprehension f us = Inr es'" and es: "es = e # es'"
    by (auto simp: bnd_Inr_iff)
  from Cons.prems(2) es obtain b r where
    b: "entry_lines en (es' = []) e = Inr b" and r: "users_lines en es' = Inr r" and
    ls: "ls = b @ r"
    by (auto simp: bnd_Inr_iff)
  from comprehension_Inr [OF es'] have "length us = length es'"
    by (rule list_all2_lengthD)
  then have last: "(es' = []) = (us = [])" by auto
  from entry_lines_block [OF b] assms [OF e] obtain pl where
    pl: "(if en then permission_lines e else Inr []) = Inr pl" and
    bb: "b = role_block (username u) (p u) pl (es' = [])"
    by auto
  from Cons.IH [OF es' r] ls bb last e pl show ?case by simp
qed

lemma build_nats_authz_Inr:
  assumes "build_nats_authz rt si cfg = Inr text"
  shows "\<exists>en es. authz_users rt si cfg = Inr (en, es) \<and> (\<exists>body.
    users_lines en es = Inr body \<and>
    text = join [newline]
      ([''authorization {'', ''  users = [''] @ body @ [''  ]'', ''}'']) @ [newline])"
  using assms
  by (auto simp: build_nats_authz_def render_def out_lines_def bnd_Inr_iff)

lemma role_entry_user_password:
  "role_entry_plain pp u = Inr e \<Longrightarrow>
     user e = JStr (username u) \<and> password e = JStr (str_of pp @ username u)"
  "role_entry_enforced si pp jp js u = Inr e \<Longrightarrow>
     user e = JStr (username u) \<and> password e = JStr (str_of pp @ username u)"
  by (auto simp: role_entry_plain_def role_entry_enforced_def bnd_Inr_iff)

text \<open>
  Claim C8. In both modes the text that \<open>build_nats_authz\<close> returns is the two opening
  lines, the administrator's block, one block per expanded principal in order, and the
  two closing lines; and the block of a principal has the principal's user name as user
  and, as password, the text of \<^verbatim>\<open>auth.passwordPrefix\<close> (\<^verbatim>\<open>pwd_\<close> when the key is
  absent) followed by that user name.
\<close>

theorem role_passwords:
  assumes "dict_get cfg ''auth'' (JObj []) = Inr auth_cfg"
    and "dict_get auth_cfg ''passwordPrefix'' (JStr ''pwd_'') = Inr pp"
    and "build_nats_authz rt si cfg = Inr text"
  shows "\<exists>us au ap aperms perms.
    expand_role_users rt cfg = Inr us \<and>
    text = join [newline]
      ([''authorization {'', ''  users = [''] @
       role_block au ap aperms (us = []) @
       role_blocks (\<lambda>u. role_block (username u) (str_of pp @ username u) (perms u)) us @
       [''  ]'', ''}'']) @ [newline]"
proof -
  from build_nats_authz_Inr [OF assms(3)] obtain en es body where
    au: "authz_users rt si cfg = Inr (en, es)" and
    body: "users_lines en es = Inr body" and
    tx: "text = join [newline]
      ([''authorization {'', ''  users = [''] @ body @ [''  ]'', ''}'']) @ [newline]"
    by blast
  from authz_users_Inr [OF au] obtain auth' pp' a0 us es' where
    a: "dict_get cfg ''auth'' (JObj []) = Inr auth'" and
    p: "dict_get auth' ''passwordPrefix'' (JStr ''pwd_'') = Inr pp'" and
    us: "expand_role_users rt cfg = Inr us" and es: "es = a0 # es'" and
    c0: "if en then
           \<exists>ji jp js.
             dict_get auth' ''jsClientInternal'' (JObj []) = Inr ji \<and>
             dict_get ji ''publishAllow'' (JArr []) = Inr jp \<and>
             dict_get ji ''subscribeAllow'' (JArr []) = Inr js \<and>
             comprehension (role_entry_enforced si pp' jp js) us = Inr es'
         else comprehension (role_entry_plain pp') us = Inr es'"
    by blast
  from a p assms(1,2) have pp: "pp' = pp" by simp
  from c0 obtain f where
    f: "comprehension f us = Inr es'" and
    fu: "\<And>u e. f u = Inr e \<Longrightarrow>
      user e = JStr (username u) \<and> password e = JStr (str_of pp @ username u)"
    unfolding pp by (cases en) (auto dest: role_entry_user_password)
  from body es obtain al rl where
    al: "entry_lines en (es' = []) a0 = Inr al" and rl: "users_lines en es' = Inr rl" and
    b: "body = al @ rl"
    by (auto simp: bnd_Inr_iff)
  from comprehension_Inr [OF f] have "length us = length es'"
    by (rule list_all2_lengthD)
  then have last: "(es' = []) = (us = [])" by auto
  from entry_lines_block [OF al] last obtain au ap aperms where
    ab: "al = role_block au ap aperms (us = [])" by auto
  define g where "g = (\<lambda>u. case bnd (f u) (\<lambda>e. if en then permission_lines e else Inr []) of
      Inl x \<Rightarrow> [] | Inr pl \<Rightarrow> pl)"
  from users_lines_roles [of f "\<lambda>u. str_of pp @ username u", OF fu f rl]
  have "rl = role_blocks (\<lambda>u. role_block (username u) (str_of pp @ username u) (g u)) us"
    by (simp add: g_def)
  with tx b ab us show ?thesis
    by (intro exI [of _ us] exI [of _ au] exI [of _ ap] exI [of _ aperms] exI [of _ g]) simp
qed

theorem role_passwords_witness:
  "build_nats_authz run_a remdups (small_cfg (sample_auth False)) = Inr small_text_plain \<and>
   build_nats_authz run_a remdups (small_cfg (sample_auth True)) = Inr small_text_enforced \<and>
   (\<exists>us au ap aperms perms.
      expand_role_users run_a (small_cfg (sample_auth False)) = Inr us \<and>
      small_text_plain = join [newline]
        ([''authorization {'', ''  users = [''] @
         role_block au ap aperms (us = []) @
         role_blocks (\<lambda>u. role_block (username u) (str_of (JStr ''pw_'') @ username u) (perms u))
           us @
         [''  ]'', ''}'']) @ [newline]) \<and>
   (\<exists>us au ap aperms perms.
      expand_role_users run_a (small_cfg (sample_auth True)) = Inr us \<and>
      small_text_enforced = join [newline]
        ([''authorization {'', ''  users = [''] @
         role_block au ap aperms (us = []) @
         role_blocks (\<lambda>u. role_block (username u) (str_of (JStr ''pw_'') @ username u) (perms u))
           us @
         [''  ]'', ''}'']) @ [newline])"
proof -
  have p: "\<And>b. dict_get (sample_auth b) ''passwordPrefix'' (JStr ''pwd_'') = Inr (JStr ''pw_'')"
    by (simp add: sample_auth_def)
  show ?thesis
    using role_passwords [OF small_auth p small_build_plain [of run_a remdups]]
      role_passwords [OF small_auth p small_build_enforced [of run_a]]
    by (simp only: small_build_plain small_build_enforced simp_thms)
qed

section \<open>Allow-lists under enforcement\<close>

text \<open>
  Whatever order the set is iterated in, sorting its members gives the sorted list of
  the set.
\<close>

lemma sort_valid_set_iter:
  assumes "valid_set_iter si"
  shows "sort (si ys) = sorted_list_of_set (set ys)"
proof -
  from assms have d: "distinct (si ys)" and s: "set (si ys) = set ys"
    by (simp_all add: valid_set_iter_def)
  have "sorted_list_of_set (set (si ys)) = sort (remdups (si ys))"
    by (rule sorted_list_of_set_sort_remdups)
  with d s show ?thesis by (simp add: distinct_remdups_id)
qed

lemma str_items_map_JStr [simp]: "str_items (map JStr xs) = Some xs"
  by (induction xs) simp_all

lemma hashable_map_JStr [simp]: "list_all hashable (map JStr xs)"
  by (induction xs) simp_all

lemma allow_list_strings:
  assumes "valid_set_iter si"
  shows "allow_list si xs (JArr (map JStr ys)) =
    Inr (JArr (map JStr (sorted_list_of_set (set xs \<union> set ys))))"
  by (simp add: allow_list_def sort_valid_set_iter [OF assms])

lemma comprehension_q_strings [simp]: "comprehension q (map JStr xs) = Inr (map q_str xs)"
  by (induction xs) simp_all

lemma allow_line_strings:
  "allow_line (JArr (map JStr xs)) =
     Inr (''          allow = ['' @ join '', '' (map q_str xs) @ '']'')"
  by (simp add: allow_line_def)

lemma sample_internal:
  "dict_get (sample_auth b) ''jsClientInternal'' (JObj []) =
     Inr (JObj [(''publishAllow'', JArr (map JStr [''b'', ''a''])),
                (''subscribeAllow'', JArr (map JStr [''_INBOX.>'']))])"
  by (simp add: sample_auth_def)

lemma valid_set_iter_remdups: "valid_set_iter remdups"
  by (simp add: valid_set_iter_def)


lemma role_entry_enforced_strings:
  assumes "valid_set_iter si"
  shows "bnd (role_entry_enforced si pp (JArr (map JStr ipub)) (JArr (map JStr isub)) u)
      permission_lines =
    Inr (rendered_permissions
           (sorted_list_of_set (set (publish u) \<union> set ipub))
           (sorted_list_of_set (set (subscribe u) \<union> set isub)))"
  by (simp add: role_entry_enforced_def allow_list_strings [OF assms] permission_lines_def
      allow_line_strings rendered_permissions_def)

text \<open>
  Claim C1. In enforced mode, with the internal subjects \<open>ipub\<close> under
  \<^verbatim>\<open>auth.jsClientInternal.publishAllow\<close> and \<open>isub\<close> under \<^verbatim>\<open>subscribeAllow\<close>, the
  text that \<open>build_nats_authz\<close> returns is the two opening lines, the administrator's
  block, one block per expanded principal in order, and the two closing lines; and the
  block of a principal has, as its permissions, the block for exactly two lists: as
  publish allow-list the sorted list, without duplicates, of the union of the
  principal's publish subjects and \<open>ipub\<close>, and as subscribe allow-list the same for
  its subscribe subjects and \<open>isub\<close>. The order is that of the strings' characters,
  compared from the left.
\<close>

theorem enforced_allow_lists:
  assumes "valid_set_iter si"
    and "dict_get cfg ''auth'' (JObj []) = Inr auth_cfg"
    and "dict_get auth_cfg ''enforcePermissions'' (JBool True) = Inr ep"
    and "truthy ep"
    and "dict_get auth_cfg ''passwordPrefix'' (JStr ''pwd_'') = Inr pp"
    and "dict_get auth_cfg ''jsClientInternal'' (JObj []) = Inr ji"
    and "dict_get ji ''publishAllow'' (JArr []) = Inr (JArr (map JStr ipub))"
    and "dict_get ji ''subscribeAllow'' (JArr []) = Inr (JArr (map JStr isub))"
    and "expand_role_users rt cfg = Inr us"
    and "build_nats_authz rt si cfg = Inr text"
  shows "\<exists>au ap aperms.
    text = join [newline]
      ([''authorization {'', ''  users = [''] @
       role_block au ap aperms (us = []) @
       role_blocks
         (\<lambda>u. role_block (username u) (str_of pp @ username u)
            (rendered_permissions
               (sorted_list_of_set (set (publish u) \<union> set ipub))
               (sorted_list_of_set (set (subscribe u) \<union> set isub))))
         us @
       [''  ]'', ''}'']) @ [newline]"
proof -
  let ?f = "role_entry_enforced si pp (JArr (map JStr ipub)) (JArr (map JStr isub))"
  from build_nats_authz_Inr [OF assms(10)] obtain en es body where
    au: "authz_users rt si cfg = Inr (en, es)" and
    body: "users_lines en es = Inr body" and
    tx: "text = join [newline]
      ([''authorization {'', ''  users = [''] @ body @ [''  ]'', ''}'']) @ [newline]"
    by blast
  from authz_users_Inr [OF au] obtain auth' ep' pp' a0 us' es' where
    a: "dict_get cfg ''auth'' (JObj []) = Inr auth'" and
    e: "dict_get auth' ''enforcePermissions'' (JBool True) = Inr ep'" and
    en: "en = truthy ep'" and
    p: "dict_get auth' ''passwordPrefix'' (JStr ''pwd_'') = Inr pp'" and
    us': "expand_role_users rt cfg = Inr us'" and es: "es = a0 # es'" and
    c0: "if en then
           \<exists>ji jp js.
             dict_get auth' ''jsClientInternal'' (JObj []) = Inr ji \<and>
             dict_get ji ''publishAllow'' (JArr []) = Inr jp \<and>
             dict_get ji ''subscribeAllow'' (JArr []) = Inr js \<and>
             comprehension (role_entry_enforced si pp' jp js) us' = Inr es'
         else comprehension (role_entry_plain pp') us' = Inr es'"
    by blast
  from a assms(2) have auth: "auth' = auth_cfg" by simp
  with e p assms(3,5) have "ep' = ep" "pp' = pp" by simp_all
  with en assms(4) have en: "en" by simp
  from us' assms(9) have "us' = us" by simp
  with c0 en auth \<open>pp' = pp\<close> assms(6-8) have f: "comprehension ?f us = Inr es'"
    by auto
  from body es obtain al rl where
    al: "entry_lines en (es' = []) a0 = Inr al" and rl: "users_lines en es' = Inr rl" and
    b: "body = al @ rl"
    by (auto simp: bnd_Inr_iff)
  from comprehension_Inr [OF f] have "length us = length es'"
    by (rule list_all2_lengthD)
  then have last: "(es' = []) = (us = [])" by auto
  from entry_lines_block [OF al] last obtain au ap aperms where
    ab: "al = role_block au ap aperms (us = [])" by auto
  have "rl = role_blocks
      (\<lambda>u. role_block (username u) (str_of pp @ username u)
         (case bnd (?f u) (\<lambda>e. if en then permission_lines e else Inr []) of
            Inl x \<Rightarrow> [] | Inr pl \<Rightarrow> pl))
      us"
    by (rule users_lines_roles [OF _ f rl]) (rule role_entry_user_password(2))
  then have "rl = role_blocks
      (\<lambda>u. role_block (username u) (str_of pp @ username u)
         (rendered_permissions
            (sorted_list_of_set (set (publish u) \<union> set ipub))
            (sorted_list_of_set (set (subscribe u) \<union> set isub))))
      us"
    using en role_entry_enforced_strings [OF assms(1), of pp ipub isub] by simp
  with tx b ab show ?thesis
    by (intro exI [of _ au] exI [of _ ap] exI [of _ aperms]) simp
qed

lemma sample_prefix:
  "dict_get (sample_auth b) ''passwordPrefix'' (JStr ''pwd_'') = Inr (JStr ''pw_'')"
  by (simp add: sample_auth_def)

lemma sample_internal_lists:
  "dict_get (JObj [(''publishAllow'', JArr (map JStr [''b'', ''a''])),
                   (''subscribeAllow'', JArr (map JStr [''_INBOX.>'']))])
      ''publishAllow'' (JArr []) = Inr (JArr (map JStr [''b'', ''a'']))"
  "dict_get (JObj [(''publishAllow'', JArr (map JStr [''b'', ''a''])),
                   (''subscribeAllow'', JArr (map JStr [''_INBOX.>'']))])
      ''subscribeAllow'' (JArr []) = Inr (JArr (map JStr [''_INBOX.>'']))"
  by simp_all

theorem enforced_allow_lists_witness:
  "valid_set_iter remdups \<and>
   expand_role_users run_a (small_cfg (sample_auth True)) = Inr small_users \<and>
   build_nats_authz run_a remdups (small_cfg (sample_auth True)) = Inr small_text_enforced \<and>
   (\<exists>au ap aperms.
      small_text_enforced = join [newline]
        ([''authorization {'', ''  users = [''] @
         role_block au ap aperms (small_users = []) @
         role_blocks
           (\<lambda>u. role_block (username u) (str_of (JStr ''pw_'') @ username u)
              (rendered_permissions
                 (sorted_list_of_set (set (publish u) \<union> set [''b'', ''a'']))
                 (sorted_list_of_set (set (subscribe u) \<union> set [''_INBOX.>'']))))
           small_users @
         [''  ]'', ''}'']) @ [newline])"
proof -
  have t: "truthy (JBool True)" by simp
  show ?thesis
    using enforced_allow_lists [OF valid_set_iter_remdups small_auth small_enforce t
        sample_prefix sample_internal sample_internal_lists small_expansion
        small_build_enforced [of run_a]]
    by (simp only: valid_set_iter_remdups small_expansion small_build_enforced simp_thms)
qed

section \<open>Determinism\<close>

lemma allow_list_independent:
  assumes "valid_set_iter s1" and "valid_set_iter s2"
  shows "allow_list s1 xs js = allow_list s2 xs js"
  by (simp add: allow_list_def sort_valid_set_iter [OF assms(1)]
      sort_valid_set_iter [OF assms(2)] split: json.splits option.splits)

lemma role_entry_enforced_independent:
  assumes "valid_set_iter s1" and "valid_set_iter s2"
  shows "role_entry_enforced s1 = role_entry_enforced s2"
  by (intro ext) (simp add: role_entry_enforced_def allow_list_independent [OF assms])

text \<open>A plain field is resolved without the run being asked.\<close>

lemma lookup_field_plain:
  assumes "list_all (\<lambda>c. c \<notin> set ''.['') nm"
  shows "lookup_field rt1 kw nm nm = lookup_field rt2 kw nm nm"
proof -
  have "\<forall>c\<in>set nm. c \<noteq> CHR ''.'' \<and> c \<noteq> CHR ''[''"
    using assms by (auto simp: list_all_iff)
  then have tw: "takeWhile (\<lambda>c. c \<noteq> CHR ''.'' \<and> c \<noteq> CHR ''['') nm = nm"
    by (simp add: takeWhile_eq_all_conv)
  show ?thesis
    unfolding lookup_field_def Let_def tw by (simp split: option.splits)
qed

lemma fmt_plain_aux:
  "(plain_template s \<longrightarrow> fmt rt1 kw s = fmt rt2 kw s) \<and>
   (\<forall>nm. plain_field s \<and> list_all (\<lambda>c. c \<notin> set ''.['') nm \<longrightarrow>
      fld rt1 kw nm s = fld rt2 kw nm s)"
proof (induction "length s" arbitrary: s rule: less_induct)
  case less
  show ?case
  proof (cases s)
    case Nil
    then show ?thesis by simp
  next
    case (Cons c cs)
    have IHf: "\<And>t. length t < length s \<Longrightarrow> plain_template t \<Longrightarrow> fmt rt1 kw t = fmt rt2 kw t"
      using less by blast
    have IHd: "\<And>t nm. length t < length s \<Longrightarrow> plain_field t \<Longrightarrow>
        list_all (\<lambda>c. c \<notin> set ''.['') nm \<Longrightarrow> fld rt1 kw nm t = fld rt2 kw nm t"
      using less by blast
    have tmpl: "fmt rt1 kw s = fmt rt2 kw s" if p: "plain_template s"
    proof (cases cs)
      case Nil
      with Cons show ?thesis by simp
    next
      case (Cons d ds)
      have l1: "length cs < length s" and l2: "length ds < length s"
        using \<open>s = c # cs\<close> Cons by simp_all
      show ?thesis
      proof (cases "c = CHR ''{''")
        case True
        show ?thesis
        proof (cases "d = CHR ''{''")
          case True
          with p \<open>s = c # cs\<close> Cons \<open>c = CHR ''{''\<close> have "plain_template ds" by simp
          from IHf [OF l2 this] \<open>s = c # cs\<close> Cons \<open>c = CHR ''{''\<close> True show ?thesis by simp
        next
          case False
          with p \<open>s = c # cs\<close> Cons \<open>c = CHR ''{''\<close> have "plain_field cs" by simp
          from IHd [OF l1 this, of "[]"] \<open>s = c # cs\<close> Cons \<open>c = CHR ''{''\<close> False
          show ?thesis by simp
        qed
      next
        case False
        show ?thesis
        proof (cases "c = CHR ''}''")
          case True
          show ?thesis
          proof (cases "d = CHR ''}''")
            case True
            with p \<open>s = c # cs\<close> Cons \<open>c = CHR ''}''\<close> have "plain_template ds" by simp
            from IHf [OF l2 this] \<open>s = c # cs\<close> Cons \<open>c = CHR ''}''\<close> True show ?thesis by simp
          next
            case False
            with \<open>s = c # cs\<close> Cons \<open>c = CHR ''}''\<close> show ?thesis by simp
          qed
        next
          case c2: False
          with p \<open>s = c # cs\<close> False have "plain_template cs" by simp
          from IHf [OF l1 this] \<open>s = c # cs\<close> False c2 show ?thesis by simp
        qed
      qed
    qed
    have field: "fld rt1 kw nm s = fld rt2 kw nm s"
      if p: "plain_field s" and n: "list_all (\<lambda>c. c \<notin> set ''.['') nm" for nm
    proof (cases "c = CHR ''}''")
      case True
      with p Cons have "plain_template cs" by simp
      from IHf [OF _ this] Cons have "fmt rt1 kw cs = fmt rt2 kw cs" by simp
      with True Cons lookup_field_plain [OF n, of rt1 kw rt2] show ?thesis by simp
    next
      case False
      with p Cons have c: "c \<noteq> CHR ''.''" "c \<noteq> CHR ''[''" "c \<noteq> CHR '':''" "c \<noteq> CHR ''!''"
        and pc: "plain_field cs" by simp_all
      from n c have n': "list_all (\<lambda>c. c \<notin> set ''.['') (nm @ [c])" by simp
      from IHd [OF _ pc n'] Cons have "fld rt1 kw (nm @ [c]) cs = fld rt2 kw (nm @ [c]) cs"
        by simp
      with False c Cons show ?thesis by simp
    qed
    from tmpl field show ?thesis by blast
  qed
qed

lemma plain_template_single [simp]: "plain_template [c]"
  by simp

lemma plain_items_lookup:
  "plain_items kvs \<Longrightarrow> map_of kvs k = Some v \<Longrightarrow> plain_json v"
  by (induction kvs) (auto split: if_splits)

lemma plain_json_getitem: "plain_json j \<Longrightarrow> getitem j k = Inr v \<Longrightarrow> plain_json v"
  by (cases j) (auto split: option.splits dest: plain_items_lookup)

lemma plain_elems_all: "plain_elems xs \<Longrightarrow> x \<in> set xs \<Longrightarrow> plain_json x"
  by (induction xs) auto

lemma plain_items_keys: "plain_items kvs \<Longrightarrow> kv \<in> set kvs \<Longrightarrow> plain_template (fst kv)"
  by (induction kvs) auto

lemma plain_json_iter:
  assumes "plain_json j" and "iter j = Inr xs" and "x \<in> set xs"
  shows "plain_json x"
proof (cases j)
  case (JStr s)
  with assms show ?thesis by auto
next
  case (JArr ys)
  with assms show ?thesis by (auto dest: plain_elems_all)
next
  case (JObj kvs)
  with assms obtain kv where "kv \<in> set kvs" "x = JStr (fst kv)" "plain_items kvs"
    by auto
  with plain_items_keys [of kvs kv] show ?thesis by simp
qed (use assms in simp_all)

lemma format_tokens_plain:
  "plain_json t \<Longrightarrow> format_tokens rt1 t kw = format_tokens rt2 t kw"
  using fmt_plain_aux [of _ rt1 kw rt2] by (cases t) simp_all

lemma comprehension_cong:
  "(\<And>x. x \<in> set xs \<Longrightarrow> f x = g x) \<Longrightarrow> comprehension f xs = comprehension g xs"
  by (induction xs) simp_all

lemma user_name_plain:
  assumes "plain_json roles"
  shows "user_name rt1 roles r kw = user_name rt2 roles r kw"
proof (cases "getitem roles r")
  case (Inl e)
  then show ?thesis by (simp add: user_name_def)
next
  case (Inr rc)
  note rc = this plain_json_getitem [OF assms this]
  show ?thesis
  proof (cases "getitem rc ''userTemplate''")
    case (Inl e)
    with rc show ?thesis by (simp add: user_name_def)
  next
    case (Inr t)
    from plain_json_getitem [OF rc(2) this] have "plain_json t" .
    from format_tokens_plain [OF this] rc Inr show ?thesis by (simp add: user_name_def)
  qed
qed

lemma subjects_plain:
  assumes "plain_json roles"
  shows "subjects rt1 roles r key kw = subjects rt2 roles r key kw"
proof (cases "getitem roles r")
  case (Inl e)
  then show ?thesis by (simp add: subjects_def)
next
  case (Inr rc)
  note rc = this plain_json_getitem [OF assms this]
  show ?thesis
  proof (cases "getitem rc key")
    case (Inl e)
    with rc show ?thesis by (simp add: subjects_def)
  next
    case (Inr ps)
    note ps = this plain_json_getitem [OF rc(2) this]
    show ?thesis
    proof (cases "iter ps")
      case (Inl e)
      with rc ps show ?thesis by (simp add: subjects_def)
    next
      case (Inr ss)
      have "comprehension (\<lambda>s. format_tokens rt1 s kw) ss =
          comprehension (\<lambda>s. format_tokens rt2 s kw) ss"
        by (rule comprehension_cong, rule format_tokens_plain)
           (rule plain_json_iter [OF ps(2) Inr])
      with rc ps Inr show ?thesis by (simp add: subjects_def)
    qed
  qed
qed

lemma mk_user_plain:
  assumes "plain_json roles"
  shows "mk_user rt1 roles r kwu kws z sz leaf = mk_user rt2 roles r kwu kws z sz leaf"
  unfolding mk_user_def user_name_plain [OF assms, of rt1 _ _ rt2]
    subjects_plain [OF assms, of rt1 _ _ _ rt2]
  by (rule refl)

lemma expand_loops_plain:
  assumes "plain_json roles"
  shows "expand_loops rt1 roles cid zc zones subzones leaves =
    expand_loops rt2 roles cid zc zones subzones leaves"
  unfolding expand_loops_def central_relay_def zone_relay_def subzone_relay_def
    central_leaf_def zone_leaf_def subzone_leaf_def Let_def
    mk_user_plain [OF assms, of rt1 _ _ _ _ _ _ rt2]
  by (rule refl)

lemma expand_role_users_plain:
  assumes "plain_roles cfg"
  shows "expand_role_users rt1 cfg = expand_role_users rt2 cfg"
proof (cases "getitem cfg ''roles''")
  case (Inl e)
  then show ?thesis by (simp add: expand_role_users_def)
next
  case (Inr roles)
  with assms have "plain_json roles" by (simp add: plain_roles_def)
  from expand_loops_plain [OF this, of rt1 _ _ _ _ _ rt2] Inr show ?thesis
    by (simp add: expand_role_users_def)
qed

lemma authz_users_plain:
  assumes "valid_set_iter s1" and "valid_set_iter s2" and "plain_roles cfg"
  shows "authz_users rt1 s1 cfg = authz_users rt2 s2 cfg"
  unfolding authz_users_def role_entry_enforced_independent [OF assms(1,2)]
    expand_role_users_plain [OF assms(3), of rt1 rt2]
  by (rule refl)

text \<open>
  Claim C9, as the code has it. A run of the interpreter brings two things that are no
  part of the document: the order in which it iterates over a set, and what it writes
  for a replacement field with an accessor, a conversion or a format specification.
  When the patterns under \<^verbatim>\<open>roles\<close> have plain fields only, the results of
  \<open>expand_role_users\<close> and of \<open>build_nats_authz\<close>, text or error, are the same in any
  two runs: they depend on the document alone.
\<close>

theorem plain_document_deterministic:
  assumes "valid_set_iter s1" and "valid_set_iter s2" and "plain_roles cfg"
  shows "expand_role_users rt1 cfg = expand_role_users rt2 cfg \<and>
    build_nats_authz rt1 s1 cfg = build_nats_authz rt2 s2 cfg"
  by (simp add: build_nats_authz_def authz_users_plain [OF assms, of rt1 rt2]
      expand_role_users_plain [OF assms(3), of rt1 rt2])

theorem plain_document_deterministic_witness:
  "valid_set_iter remdups \<and> valid_set_iter (\<lambda>ys. rev (remdups ys)) \<and>
   plain_roles (small_cfg (sample_auth True)) \<and>
   expand_role_users run_a (small_cfg (sample_auth True)) =
   expand_role_users run_b (small_cfg (sample_auth True)) \<and>
   build_nats_authz run_a remdups (small_cfg (sample_auth True)) =
   build_nats_authz run_b (\<lambda>ys. rev (remdups ys)) (small_cfg (sample_auth True))"
proof -
  have r: "valid_set_iter (\<lambda>ys. rev (remdups ys))"
    by (simp add: valid_set_iter_def)
  have p: "plain_roles (small_cfg (sample_auth True))"
    by (simp add: plain_roles_def small_cfg_def sample_role_def)
  show ?thesis
    using plain_document_deterministic [OF valid_set_iter_remdups r p, of run_a run_b] r p
    by (simp only: valid_set_iter_remdups simp_thms)
qed

text \<open>
  Claim C9, as stated, holds for every document. It fails on a pattern with attribute
  access: \<^verbatim>\<open>r.{centralId.__init__}\<close> writes the address of the string, so two runs in
  which the string lies at different addresses return different user names and
  different texts for the same document.
\<close>

theorem attribute_field_differs_between_runs:
  "expand_role_users run_a (attr_cfg (sample_auth False)) =
     Inr [\<lparr>username = ''r.<method-wrapper '__init__' of str object at 0x7f3a5c1e2b30>'',
            role = ''relayCentral'', zone = None, subzone = None, leafId = None,
            publish = [], subscribe = []\<rparr>] \<and>
   expand_role_users run_b (attr_cfg (sample_auth False)) =
     Inr [\<lparr>username = ''r.<method-wrapper '__init__' of str object at 0x7f8e4d2a9c70>'',
            role = ''relayCentral'', zone = None, subzone = None, leafId = None,
            publish = [], subscribe = []\<rparr>] \<and>
   build_nats_authz run_a remdups (attr_cfg (sample_auth False)) \<noteq>
   build_nats_authz run_b remdups (attr_cfg (sample_auth False))"
proof -
  have a: "expand_role_users run_a (attr_cfg auth) =
      Inr [\<lparr>username = ''r.<method-wrapper '__init__' of str object at 0x7f3a5c1e2b30>'',
             role = ''relayCentral'', zone = None, subzone = None, leafId = None,
             publish = [], subscribe = []\<rparr>]" for auth
    by (simp add: expand_defs attr_cfg_def sample_role_def run_a_def run_at_def)
  have b: "expand_role_users run_b (attr_cfg auth) =
      Inr [\<lparr>username = ''r.<method-wrapper '__init__' of str object at 0x7f8e4d2a9c70>'',
             role = ''relayCentral'', zone = None, subzone = None, leafId = None,
             publish = [], subscribe = []\<rparr>]" for auth
    by (simp add: expand_defs attr_cfg_def sample_role_def run_b_def run_at_def)
  have au: "dict_get (attr_cfg auth) ''auth'' (JObj []) = Inr auth" for auth
    by (simp add: attr_cfg_def)
  have "build_nats_authz run_a remdups (attr_cfg (sample_auth False)) \<noteq>
      build_nats_authz run_b remdups (attr_cfg (sample_auth False))"
    unfolding build_nats_authz_def authz_users_def au a b
    by (simp add: sample_auth_def sample_admin_def admin_entry_plain_def role_entry_plain_def
        render_def out_lines_def entry_lines_def q_str_def dquote_def)
  with a b show ?thesis by simp
qed

end
